theory Spec2Isabelle
  imports Complex_Main
begin

unbundle bit_operations_syntax

section \<open>Numbers, errors and landmarks\<close>

text \<open>
  The program computes with Python and NumPy floats, which are IEEE binary64 numbers.
  A float is a real number here. In the quality check, the burst average and the view
  combination the source's formulas are read over \<^typ>\<open>real\<close>, without the rounding
  of each operation. \<open>calculate_circumference_only\<close> rounds its results to two
  decimals, which makes the last bit of its products visible, so there every operation is
  followed by the rounding to the nearest binary64 number (\<open>double_round\<close> below).
  Overflow to infinity is not modelled. Python integers (counters, list indices, joint
  indices) are natural numbers or integers.
\<close>

datatype py_error = IndexError

text \<open>
  A landmark of MediaPipe and the dictionaries built from it have the keys
  \<open>x\<close>, \<open>y\<close>, \<open>z\<close> and \<open>visibility\<close>; the 3D points of \<open>triangulate_4view\<close>
  have \<open>x\<close>, \<open>y\<close>, \<open>z\<close> only. A list entry that is \<open>None\<close> is \<^const>\<open>None\<close>.
\<close>

record point3 =
  x :: real
  y :: real
  z :: real

record landmark = point3 +
  visibility :: real

text \<open>\<open>np.mean\<close> of a list; the source calls it on non-empty lists only.\<close>

definition mean :: "real list \<Rightarrow> real" where
  "mean vs = sum_list vs / real (length vs)"

text \<open>
  \<open>round(v, 2)\<close> of a Python float, read over the reals: the nearest multiple of 1/100,
  a tie going to the even neighbour.
\<close>

definition round_half_even :: "real \<Rightarrow> int" where
  "round_half_even r =
     (let f = \<lfloor>r\<rfloor>; d = r - of_int f
      in if d < 1 / 2 then f
         else if 1 / 2 < d then f + 1
         else if even f then f else f + 1)"

definition round2 :: "real \<Rightarrow> real" where
  "round2 v = of_int (round_half_even (v * 100)) / 100"

text \<open>
  The binary64 number nearest to a real, a tie going to the even significand: for
  \<open>v\<close> between \<open>2 powi e\<close> and \<open>2 powi (e + 1)\<close> in absolute value it is the nearest
  multiple of \<open>2 powi (e - 52)\<close>, and below \<open>2 powi (- 1022)\<close> the nearest multiple of
  \<open>2 powi (- 1074)\<close>. It is the result of one float operation whose exact result is
  \<open>v\<close>, and the value of a decimal literal \<open>v\<close>.
\<close>

definition double_round :: "real \<Rightarrow> real" where
  "double_round v =
     (if v = 0 then 0
      else (let e = max \<lfloor>log 2 \<bar>v\<bar>\<rfloor> (- 1022); u = 2 powi (e - 52)
            in of_int (round_half_even (v / u)) * u))"

text \<open>
  \<open>round(v, 2)\<close> of a NumPy float64, which is \<open>np.round\<close>: multiply by 100, round to
  the nearest integer with ties to even (\<open>rint\<close>), divide by 100, each a float operation.
\<close>

definition np_round2 :: "real \<Rightarrow> real" where
  "np_round2 v = double_round (of_int (round_half_even (double_round (v * 100))) / 100)"

text \<open>
  The distance \<open>np.sqrt((p["x"] - q["x"])**2 + (p["y"] - q["y"])**2 + (p["z"] - q["z"])**2)\<close>
  in float arithmetic: each difference, square, sum and the square root is rounded. The
  square \<open>v**2\<close> is taken as the correctly rounded product.
\<close>

definition dist3 :: "point3 \<Rightarrow> point3 \<Rightarrow> real" where
  "dist3 p q =
     (let dx = double_round (x p - x q);
          dy = double_round (y p - y q);
          dz = double_round (z p - z q);
          sx = double_round (dx\<^sup>2);
          sy = double_round (dy\<^sup>2);
          sz = double_round (dz\<^sup>2)
      in double_round (sqrt (double_round (double_round (sx + sy) + sz))))"

section \<open>MeasurementEngine: \<open>calculate_circumference_only\<close>\<close>

record calibration =
  indices :: "nat \<times> nat"
  ratio :: real
  description :: string

text \<open>\<open>self.CIRCUMFERENCE_POINTS\<close>, in the order the dictionary is written.\<close>

definition CIRCUMFERENCE_POINTS :: "(string \<times> calibration) list" where
  "CIRCUMFERENCE_POINTS =
    [(''chest'', \<lparr>indices = (11, 12), ratio = 130 / 100, description = ''Chest (shoulders)''\<rparr>),
     (''waist'', \<lparr>indices = (23, 24), ratio = 135 / 100, description = ''Waist (hips)''\<rparr>),
     (''hip'', \<lparr>indices = (23, 24), ratio = 135 / 100, description = ''Hip/Seat''\<rparr>),
     (''biceps_left'', \<lparr>indices = (11, 13), ratio = 12 / 10, description = ''Biceps (left arm)''\<rparr>),
     (''biceps_right'', \<lparr>indices = (12, 14), ratio = 12 / 10, description = ''Biceps (right arm)''\<rparr>),
     (''forearm_left'', \<lparr>indices = (13, 15), ratio = 115 / 100, description = ''Forearm (left)''\<rparr>),
     (''forearm_right'', \<lparr>indices = (14, 16), ratio = 115 / 100, description = ''Forearm (right)''\<rparr>),
     (''thigh_left'', \<lparr>indices = (23, 25), ratio = 120 / 100, description = ''Thigh (left)''\<rparr>),
     (''thigh_right'', \<lparr>indices = (24, 26), ratio = 120 / 100, description = ''Thigh (right)''\<rparr>),
     (''calf_left'', \<lparr>indices = (25, 27), ratio = 115 / 100, description = ''Calf (left)''\<rparr>),
     (''calf_right'', \<lparr>indices = (26, 28), ratio = 115 / 100, description = ''Calf (right)''\<rparr>)]"

text \<open>
  The scale factor of lines 354 to 363. \<open>landmarks_3d[0] and landmarks_3d[29]\<close> reads
  index 29 only when entry 0 is not \<open>None\<close>; a read past the end of the list raises
  \<open>IndexError\<close>.
\<close>

definition scale_factor :: "real \<Rightarrow> point3 option list \<Rightarrow> py_error + real" where
  "scale_factor user_height_cm landmarks_3d =
     (if length landmarks_3d = 0 then Inl IndexError
      else case landmarks_3d ! 0 of
        None \<Rightarrow> Inr 1
      | Some p0 \<Rightarrow>
          (if length landmarks_3d \<le> 29 then Inl IndexError
           else (case landmarks_3d ! 29 of
                   None \<Rightarrow> Inr 1
                 | Some p29 \<Rightarrow>
                     (let height_pixels = dist3 p0 p29
                      in Inr (if height_pixels > 0
                              then double_round (user_height_cm / height_pixels)
                              else 1)))))"

text \<open>
  One pass of the loop over \<open>CIRCUMFERENCE_POINTS.items()\<close>. The ratio is the float that
  the decimal literal of the table denotes; \<open>width * ratio * scale_factor\<close> is two float
  products, from the left.
\<close>

definition measure_entry ::
  "real \<Rightarrow> point3 option list \<Rightarrow> string \<times> calibration \<Rightarrow> (string \<rightharpoonup> real) \<Rightarrow> (string \<rightharpoonup> real)" where
  "measure_entry sf landmarks_3d entry measurements =
     (let measurement_name = fst entry; config = snd entry;
          idx1 = fst (indices config); idx2 = snd (indices config)
      in if idx1 < length landmarks_3d \<and> idx2 < length landmarks_3d
         then (case (landmarks_3d ! idx1, landmarks_3d ! idx2) of
                 (Some p1, Some p2) \<Rightarrow>
                   (let width = dist3 p1 p2;
                        circumference =
                          double_round (double_round (width * double_round (ratio config)) * sf)
                    in measurements(measurement_name \<mapsto> np_round2 circumference))
               | _ \<Rightarrow> measurements)
         else measurements)"

definition calculate_circumference_only ::
  "real \<Rightarrow> point3 option list option \<Rightarrow> py_error + (string \<rightharpoonup> real) option" where
  "calculate_circumference_only user_height_cm landmarks_3d =
     (case landmarks_3d of
        None \<Rightarrow> Inr None
      | Some ls \<Rightarrow>
          (case scale_factor user_height_cm ls of
             Inl e \<Rightarrow> Inl e
           | Inr sf \<Rightarrow> Inr (Some (fold (measure_entry sf ls) CIRCUMFERENCE_POINTS Map.empty))))"

text \<open>
  What one calibration entry contributes: the rounded circumference when both joints are
  in range and present, nothing otherwise. Used to describe the result of the loop.
\<close>

definition entry_value :: "real \<Rightarrow> point3 option list \<Rightarrow> calibration \<Rightarrow> real option" where
  "entry_value sf ls cfg =
     (if fst (indices cfg) < length ls \<and> snd (indices cfg) < length ls
      then (case (ls ! fst (indices cfg), ls ! snd (indices cfg)) of
              (Some p1, Some p2) \<Rightarrow>
                Some (np_round2 (double_round
                  (double_round (dist3 p1 p2 * double_round (ratio cfg)) * sf)))
            | _ \<Rightarrow> None)
      else None)"

text \<open>
  A combined landmark set of 33 joints for the examples: head top and foot 170 apart,
  shoulders at \<open>\<plusminus>20\<close>, hips at \<open>\<plusminus>15\<close>, every other joint absent.
\<close>

definition demo_landmarks_3d :: "point3 option list" where
  "demo_landmarks_3d =
     (replicate 33 None)
       [0 := Some \<lparr>x = 0, y = 170, z = 0\<rparr>,
        29 := Some \<lparr>x = 0, y = 0, z = 0\<rparr>,
        11 := Some \<lparr>x = - 20, y = 140, z = 0\<rparr>,
        12 := Some \<lparr>x = 20, y = 140, z = 0\<rparr>,
        23 := Some \<lparr>x = - 15, y = 90, z = 0\<rparr>,
        24 := Some \<lparr>x = 15, y = 90, z = 0\<rparr>]"


section \<open>Decimal rendering of counters\<close>

text \<open>\<open>str(n)\<close> of a non-negative Python integer, as the f-strings of the source use it.\<close>

definition digit_char :: "nat \<Rightarrow> char" where
  "digit_char d = ''0123456789'' ! d"

function show_nat :: "nat \<Rightarrow> string" where
  "show_nat n =
     (if n < 10 then [digit_char n] else show_nat (n div 10) @ [digit_char (n mod 10)])"
  by pat_completeness auto
termination
  by (relation "measure id") auto

declare show_nat.simps [simp del]

section \<open>QualityAssessor: \<open>extract_landmarks_2d\<close> and \<open>assess_pose_quality\<close>\<close>

definition min_visibility_score :: real where
  "min_visibility_score = 75 / 100"

definition min_joints_visible :: nat where
  "min_joints_visible = 28"

definition frames_per_view :: nat where
  "frames_per_view = 30"

definition pose_stable_threshold :: nat where
  "pose_stable_threshold = 15"

text \<open>The entries of a list that are not \<open>None\<close>, in order.\<close>

definition present :: "'a option list \<Rightarrow> 'a list" where
  "present ls = map the (filter (\<lambda>l. l \<noteq> None) ls)"

text \<open>
  \<open>results.pose_landmarks\<close> is \<open>None\<close> or carries the list of detected landmarks;
  \<open>frame_shape\<close> is \<open>(height, width)\<close>.
\<close>

definition extract_landmarks_2d ::
  "landmark list option \<Rightarrow> nat \<times> nat \<Rightarrow> landmark option list option" where
  "extract_landmarks_2d pose_landmarks frame_shape =
     (case pose_landmarks of
        None \<Rightarrow> None
      | Some lms \<Rightarrow>
          (let height = fst frame_shape; width = snd frame_shape
           in Some (map (\<lambda>lm.
                 if visibility lm > min_visibility_score
                 then Some \<lparr>x = x lm * real width, y = y lm * real height, z = z lm,
                            visibility = visibility lm\<rparr>
                 else None) lms)))"

text \<open>
  The result is \<open>(is_valid, quality_score, issues)\<close>. After the early return the list has
  at least 28 entries, so the reads at 0, 11 and 23 are in range
  (lemma \<open>assess_reads_in_range\<close>).
\<close>

definition assess_pose_quality :: "landmark option list option \<Rightarrow> bool \<times> real \<times> string list" where
  "assess_pose_quality landmarks_2d =
     (case landmarks_2d of
        None \<Rightarrow> (False, 0, [''No landmarks detected''])
      | Some ls \<Rightarrow>
          (let valid_landmarks = length (filter (\<lambda>l. l \<noteq> None) ls)
           in if valid_landmarks < min_joints_visible
              then (False, 0,
                    [''Not enough joints: '' @ show_nat valid_landmarks @ ''/'' @
                     show_nat min_joints_visible])
              else
                (let issues1 =
                       (case ls ! 0 of
                          None \<Rightarrow> []
                        | Some head \<Rightarrow>
                            if x head < 100 \<or> x head > 540 then [''Head not centered''] else []);
                     issues2 = issues1 @
                       (case (ls ! 11, ls ! 23) of
                          (Some shoulder, Some hip) \<Rightarrow>
                            if \<bar>y shoulder - y hip\<bar> < 50 then [''Stand upright''] else []
                        | _ \<Rightarrow> []);
                     visibility_scores = map visibility (present ls);
                     quality_score =
                       (if visibility_scores \<noteq> [] then mean visibility_scores else 0);
                     is_valid = (length issues2 = 0 \<and> quality_score > 7 / 10)
                 in (is_valid, quality_score, issues2))))"

section \<open>BurstAverager: \<open>_average_landmarks\<close>\<close>

text \<open>A \<open>for\<close> loop that builds a list and stops at the first exception.\<close>

fun traverse :: "('a \<Rightarrow> py_error + 'b) \<Rightarrow> 'a list \<Rightarrow> py_error + 'b list" where
  "traverse f [] = Inr []"
| "traverse f (a # as) =
     (case f a of
        Inl e \<Rightarrow> Inl e
      | Inr b \<Rightarrow> (case traverse f as of Inl e \<Rightarrow> Inl e | Inr bs \<Rightarrow> Inr (b # bs)))"

text \<open>
  The body of the loop for one joint index. The comprehension reads \<open>frame[idx]\<close> of
  every frame, so a frame shorter than the first one raises \<open>IndexError\<close>.
\<close>

definition average_at :: "landmark option list list \<Rightarrow> nat \<Rightarrow> py_error + landmark option" where
  "average_at landmarks_list idx =
     (if list_ex (\<lambda>frame. length frame \<le> idx) landmarks_list then Inl IndexError
      else
        (let valid_points = present (map (\<lambda>frame. frame ! idx) landmarks_list)
         in if valid_points \<noteq> []
            then Inr (Some \<lparr>x = mean (map x valid_points),
                             y = mean (map y valid_points),
                             z = mean (map z valid_points),
                             visibility = mean (map visibility valid_points)\<rparr>)
            else Inr None))"

definition average_landmarks ::
  "landmark option list list \<Rightarrow> py_error + landmark option list option" where
  "average_landmarks landmarks_list =
     (case landmarks_list of
        [] \<Rightarrow> Inr None
      | first # _ \<Rightarrow>
          (case traverse (average_at landmarks_list) [0..<length first] of
             Inl e \<Rightarrow> Inl e
           | Inr averaged \<Rightarrow> Inr (Some averaged)))"

section \<open>StabilizationGate: the loop of \<open>auto_capture_view\<close>\<close>

text \<open>
  What the loop reads per iteration: the landmarks MediaPipe found in the frame
  (\<open>results.pose_landmarks\<close>), \<open>frame.shape[:2]\<close> and the value of \<open>cv2.waitKey(1)\<close>.
  The camera is the list of frames; \<open>cap.read()\<close> fails when the list is used up.
  The loop reads no clock.
\<close>

record frame =
  pose_landmarks :: "landmark list option"
  shape :: "nat \<times> nat"
  key :: int

text \<open>The local variables of the loop.\<close>

record capture_state =
  frame_count :: nat
  valid_landmarks_list :: "landmark option list list"
  pose_stable_count :: nat
  auto_capture_started :: bool

definition initial_state :: capture_state where
  "initial_state =
     \<lparr>frame_count = 0, valid_landmarks_list = [], pose_stable_count = 0,
      auto_capture_started = False\<rparr>"

text \<open>How the loop is left.\<close>

datatype loop_exit = Burst_complete | Key_s | Key_q | Stream_end

text \<open>Lines 224 to 237.\<close>

definition update_stability :: "bool \<Rightarrow> capture_state \<Rightarrow> capture_state" where
  "update_stability is_valid st =
     (if is_valid
      then (let st1 = st\<lparr>pose_stable_count := pose_stable_count st + 1\<rparr>
            in if \<not> auto_capture_started st1 \<and> pose_stable_count st1 \<ge> pose_stable_threshold
               then st1\<lparr>auto_capture_started := True\<rparr>
               else st1)
      else (let st1 = (if auto_capture_started st
                       then st\<lparr>auto_capture_started := False, frame_count := 0,
                               valid_landmarks_list := []\<rparr>
                       else st)
            in st1\<lparr>pose_stable_count := 0\<rparr>))"

text \<open>\<open>landmarks_2d and all(l is not None for l in landmarks_2d)\<close>\<close>

definition all_joints_present :: "landmark option list option \<Rightarrow> bool" where
  "all_joints_present landmarks_2d =
     (case landmarks_2d of
        None \<Rightarrow> False
      | Some ls \<Rightarrow> ls \<noteq> [] \<and> list_all (\<lambda>l. l \<noteq> None) ls)"

text \<open>Lines 239 to 250; the flag says that the \<open>break\<close> of line 250 is taken.\<close>

definition capture_frame ::
  "landmark option list option \<Rightarrow> capture_state \<Rightarrow> bool \<times> capture_state" where
  "capture_frame landmarks_2d st =
     (if auto_capture_started st \<and> all_joints_present landmarks_2d
      then (let st1 = st\<lparr>valid_landmarks_list := valid_landmarks_list st @ [the landmarks_2d],
                          frame_count := frame_count st + 1\<rparr>
            in (frame_count st1 \<ge> frames_per_view, st1))
      else (False, st))"

text \<open>One iteration of the \<open>while True\<close> loop, from line 211 on.\<close>

definition frame_step :: "capture_state \<Rightarrow> frame \<Rightarrow> loop_exit option \<times> capture_state" where
  "frame_step st f =
     (let landmarks_2d = extract_landmarks_2d (pose_landmarks f) (shape f);
          is_valid = fst (assess_pose_quality landmarks_2d);
          st1 = update_stability is_valid st;
          (complete, st2) = capture_frame landmarks_2d st1
      in if complete then (Some Burst_complete, st2)
         else (let k = key f AND 255
               in if k = 113 then (Some Key_q, st2)
                  else if k = 115 then (Some Key_s, st2)
                  else (None, st2)))"

fun capture_loop :: "capture_state \<Rightarrow> frame list \<Rightarrow> loop_exit \<times> capture_state" where
  "capture_loop st [] = (Stream_end, st)"
| "capture_loop st (f # fs) =
     (case frame_step st f of
        (Some e, st') \<Rightarrow> (e, st')
      | (None, st') \<Rightarrow> capture_loop st' fs)"

text \<open>
  The result is \<open>(self.capture_complete, success, averaged)\<close>: the \<open>q\<close> key sets the
  flag and returns \<open>(False, None)\<close>; every other exit returns the average of whatever
  \<open>valid_landmarks_list\<close> holds, when it holds anything.
\<close>

definition auto_capture_view ::
  "bool \<Rightarrow> frame list \<Rightarrow> py_error + (bool \<times> bool \<times> landmark option list option)" where
  "auto_capture_view capture_complete frames =
     (case capture_loop initial_state frames of
        (Key_q, st) \<Rightarrow> Inr (True, False, None)
      | (_, st) \<Rightarrow>
          if valid_landmarks_list st \<noteq> []
          then (case average_landmarks (valid_landmarks_list st) of
                  Inl e \<Rightarrow> Inl e
                | Inr averaged \<Rightarrow> Inr (capture_complete, True, averaged))
          else Inr (capture_complete, False, None))"

section \<open>ViewCombiner: \<open>triangulate_4view\<close>\<close>

definition combine_at ::
  "landmark option list \<Rightarrow> landmark option list \<Rightarrow> landmark option list \<Rightarrow>
   landmark option list \<Rightarrow> nat \<Rightarrow> py_error + point3 option" where
  "combine_at front left back right idx =
     (if length left \<le> idx \<or> length back \<le> idx \<or> length right \<le> idx then Inl IndexError
      else (case (front ! idx, left ! idx, back ! idx, right ! idx) of
              (Some p_front, Some p_left, Some p_back, Some p_right) \<Rightarrow>
                Inr (Some \<lparr>x = (x p_front + x p_left + x p_back + x p_right) / 4,
                            y = (y p_front + y p_left + y p_back + y p_right) / 4,
                            z = (z p_front + z p_left + z p_back + z p_right) / 4\<rparr>)
            | _ \<Rightarrow> Inr None))"

text \<open>
  \<open>all([front, left, back, right])\<close> is false for a view that is \<open>None\<close> and for a view
  that is the empty list.
\<close>

definition triangulate_4view ::
  "landmark option list option \<Rightarrow> landmark option list option \<Rightarrow>
   landmark option list option \<Rightarrow> landmark option list option \<Rightarrow>
   py_error + point3 option list option" where
  "triangulate_4view front left back right =
     (case (front, left, back, right) of
        (Some f, Some l, Some b, Some r) \<Rightarrow>
          if f = [] \<or> l = [] \<or> b = [] \<or> r = [] then Inr None
          else (case traverse (combine_at f l b r) [0..<length f] of
                  Inl e \<Rightarrow> Inl e
                | Inr landmarks_3d \<Rightarrow> Inr (Some landmarks_3d))
      | _ \<Rightarrow> Inr None)"

section \<open>MeasurementValidator: \<open>validate_circumference\<close>\<close>

record standard =
  std_min :: nat
  std_max :: nat
  target :: nat

definition CIRCUMFERENCE_STANDARDS :: "(string \<times> standard) list" where
  "CIRCUMFERENCE_STANDARDS =
    [(''chest'', \<lparr>std_min = 75, std_max = 120, target = 95\<rparr>),
     (''waist'', \<lparr>std_min = 60, std_max = 110, target = 80\<rparr>),
     (''hip'', \<lparr>std_min = 85, std_max = 130, target = 100\<rparr>),
     (''arm_bicep'', \<lparr>std_min = 22, std_max = 38, target = 30\<rparr>),
     (''thigh_upper'', \<lparr>std_min = 40, std_max = 70, target = 55\<rparr>),
     (''calf'', \<lparr>std_min = 30, std_max = 45, target = 38\<rparr>)]"

text \<open>\<open>MEASUREMENTS_TO_CAPTURE\<close> of \<open>config.py\<close>.\<close>

definition MEASUREMENTS_TO_CAPTURE :: "string list" where
  "MEASUREMENTS_TO_CAPTURE =
    [''chest'', ''waist'', ''hip'', ''biceps_left'', ''biceps_right'', ''forearm_left'',
     ''forearm_right'', ''thigh_left'', ''thigh_right'', ''calf_left'', ''calf_right'']"

text \<open>The returned dictionary; a key it does not have is \<^const>\<open>None\<close>.\<close>

record validation =
  valid :: bool
  message :: string
  status :: "string option"
  diff_from_target :: "real option"

definition validate_circumference :: "string \<Rightarrow> real \<Rightarrow> validation" where
  "validate_circumference measurement_name value_cm =
     (case map_of CIRCUMFERENCE_STANDARDS measurement_name of
        None \<Rightarrow>
          \<lparr>valid = True, message = ''No standard available'', status = None,
           diff_from_target = None\<rparr>
      | Some standard \<Rightarrow>
          if value_cm < real (std_min standard)
          then \<lparr>valid = False,
                message = ''Below minimum ('' @ show_nat (std_min standard) @ '' cm)'',
                status = Some ''too_small'', diff_from_target = None\<rparr>
          else if value_cm > real (std_max standard)
          then \<lparr>valid = False,
                message = ''Above maximum ('' @ show_nat (std_max standard) @ '' cm)'',
                status = Some ''too_large'', diff_from_target = None\<rparr>
          else (let diff = value_cm - real (target standard)
                in \<lparr>valid = True,
                    message = ''Within range ('' @ show_nat (std_min standard) @ ''-'' @
                              show_nat (std_max standard) @ '' cm)'',
                    status = Some (if \<bar>diff\<bar> < 5 then ''ideal''
                                   else if diff > 0 then ''above_target''
                                   else ''below_target''),
                    diff_from_target = Some (round2 diff)\<rparr>))"

section \<open>Auxiliary definitions for the statements\<close>

text \<open>What \<open>_average_landmarks\<close> stores for one joint, given the points found for it.\<close>

definition averaged_point :: "landmark list \<Rightarrow> landmark option" where
  "averaged_point pts =
     (if pts \<noteq> []
      then Some \<lparr>x = mean (map x pts), y = mean (map y pts), z = mean (map z pts),
                 visibility = mean (map visibility pts)\<rparr>
      else None)"

text \<open>What \<open>triangulate_4view\<close> stores for a joint that all four views have.\<close>

definition combined :: "landmark \<Rightarrow> landmark \<Rightarrow> landmark \<Rightarrow> landmark \<Rightarrow> point3" where
  "combined p_front p_left p_back p_right =
     \<lparr>x = (x p_front + x p_left + x p_back + x p_right) / 4,
      y = (y p_front + y p_left + y p_back + y p_right) / 4,
      z = (z p_front + z p_left + z p_back + z p_right) / 4\<rparr>"

text \<open>
  The invariant of the capture loop between two iterations: the counter is the length of
  the buffer and below \<open>frames_per_view\<close>, every buffered frame has all joints, and the
  buffer is empty while no burst is in progress.
\<close>

definition burst_inv :: "capture_state \<Rightarrow> bool" where
  "burst_inv st \<longleftrightarrow>
     frame_count st = length (valid_landmarks_list st) \<and>
     frame_count st < frames_per_view \<and>
     list_all (\<lambda>fr. all_joints_present (Some fr)) (valid_landmarks_list st) \<and>
     (auto_capture_started st \<or> valid_landmarks_list st = [])"

subsection \<open>Example data\<close>

text \<open>A view of two joints, placed by a parameter.\<close>

definition demo_view :: "real \<Rightarrow> landmark option list" where
  "demo_view c =
     [Some \<lparr>x = c, y = 2 * c, z = 0, visibility = 9 / 10\<rparr>,
      Some \<lparr>x = c, y = 0, z = 4 * c, visibility = 8 / 10\<rparr>]"

text \<open>
  A detection of 33 landmarks, all clearly visible, head centred, shoulders well above the
  hips; its frame without a key press; the same frame with the \<open>s\<close> key; a frame in which
  no pose was detected, without a key and with the \<open>q\<close> key.
\<close>

definition good_landmarks :: "landmark list" where
  "good_landmarks =
     replicate 23 \<lparr>x = 1 / 2, y = 1 / 10, z = 0, visibility = 9 / 10\<rparr> @
     replicate 10 \<lparr>x = 1 / 2, y = 9 / 10, z = 0, visibility = 9 / 10\<rparr>"

definition good_landmarks_2d :: "landmark option list" where
  "good_landmarks_2d =
     replicate 23 (Some \<lparr>x = 320, y = 48, z = 0, visibility = 9 / 10\<rparr>) @
     replicate 10 (Some \<lparr>x = 320, y = 432, z = 0, visibility = 9 / 10\<rparr>)"

definition good_frame :: frame where
  "good_frame = \<lparr>pose_landmarks = Some good_landmarks, shape = (480, 640), key = - 1\<rparr>"

definition stop_frame :: frame where
  "stop_frame = \<lparr>pose_landmarks = Some good_landmarks, shape = (480, 640), key = 115\<rparr>"

definition no_pose_frame :: frame where
  "no_pose_frame = \<lparr>pose_landmarks = None, shape = (480, 640), key = - 1\<rparr>"

definition quit_frame :: frame where
  "quit_frame = \<lparr>pose_landmarks = None, shape = (480, 640), key = 113\<rparr>"

section \<open>Properties of the MeasurementEngine\<close>

lemma measure_entry_eq:
  "measure_entry sf ls (n, cfg) m =
     (case entry_value sf ls cfg of Some v \<Rightarrow> m(n \<mapsto> v) | None \<Rightarrow> m)"
  by (auto simp: measure_entry_def entry_value_def Let_def split: option.splits)

lemma fold_measure_entry:
  "distinct (map fst tbl) \<Longrightarrow>
   fold (measure_entry sf ls) tbl m k =
     (case map_of tbl k of
        None \<Rightarrow> m k
      | Some cfg \<Rightarrow> (case entry_value sf ls cfg of Some v \<Rightarrow> Some v | None \<Rightarrow> m k))"
proof (induction tbl arbitrary: m)
  case Nil
  then show ?case by simp
next
  case (Cons e tbl)
  obtain n cfg where e: "e = (n, cfg)" by (cases e)
  from Cons.prems have d: "distinct (map fst tbl)" and nin: "n \<notin> fst ` set tbl"
    by (auto simp: e)
  have mo: "map_of tbl n = None" using nin by (simp add: map_of_eq_None_iff)
  show ?case
    using mo by (auto simp: e Cons.IH [OF d] measure_entry_eq split: option.splits)
qed

lemma distinct_points: "distinct (map fst CIRCUMFERENCE_POINTS)"
  by (simp add: CIRCUMFERENCE_POINTS_def)



subsection \<open>Rounding\<close>

lemma round_half_even_of_int: "round_half_even (of_int n) = n"
  by (simp add: round_half_even_def)

lemma round_half_even_near: "\<bar>r - of_int (round_half_even r)\<bar> \<le> 1 / 2"
  unfolding round_half_even_def Let_def
  by (auto simp: abs_le_iff)

lemma double_round_zero: "double_round 0 = 0"
  by (simp add: double_round_def)

text \<open>With the binade of \<open>v\<close> known, \<open>double_round\<close> is a rounding of a quotient.\<close>

lemma double_round_eval:
  assumes "2 powi e \<le> \<bar>v\<bar>" and "\<bar>v\<bar> < 2 powi (e + 1)" and "- 1022 \<le> e"
  shows "double_round v = of_int (round_half_even (v / 2 powi (e - 52))) * 2 powi (e - 52)"
proof -
  have pos: "0 < \<bar>v\<bar>" using assms(1) zero_less_power_int [of "2::real" e] by linarith
  have p1: "(2::real) powr (of_int e) = 2 powi e"
    by (rule powr_real_of_int') simp_all
  have p2: "(2::real) powr (of_int (e + 1)) = 2 powi (e + 1)"
    by (rule powr_real_of_int') simp_all
  have "2 powr (of_int e) \<le> \<bar>v\<bar> \<and> \<bar>v\<bar> < 2 powr (of_int e + 1)"
    using assms(1,2) p1 p2 by simp
  then have "\<lfloor>log 2 \<bar>v\<bar>\<rfloor> = e"
    using floor_log_eq_powr_iff [of "\<bar>v\<bar>" 2 e] pos by simp
  with pos assms(3) show ?thesis
    by (simp add: double_round_def Let_def max_def)
qed

text \<open>The result is within half a unit in the last place of the exact value.\<close>

lemma double_round_near:
  assumes "2 powi e \<le> \<bar>v\<bar>" and "\<bar>v\<bar> < 2 powi (e + 1)" and "- 1022 \<le> e"
  shows "\<bar>double_round v - v\<bar> \<le> 2 powi (e - 52) / 2"
proof -
  let ?u = "(2::real) powi (e - 52)"
  have u: "0 < ?u" by simp
  have "double_round v - v = (of_int (round_half_even (v / ?u)) - v / ?u) * ?u"
    using u by (simp add: double_round_eval [OF assms] field_simps)
  then have "\<bar>double_round v - v\<bar> = \<bar>v / ?u - of_int (round_half_even (v / ?u))\<bar> * ?u"
    using u by (simp add: abs_mult abs_minus_commute)
  also have "\<dots> \<le> (1 / 2) * ?u"
    using round_half_even_near [of "v / ?u"] u by (intro mult_right_mono) simp_all
  finally show ?thesis by simp
qed

text \<open>Whole numbers below \<open>2 ^ 53\<close> are binary64 numbers.\<close>

lemma double_round_int:
  assumes "\<bar>n\<bar> < 2 ^ 53"
  shows "double_round (of_int n) = of_int n"
proof (cases "n = 0")
  case True
  then show ?thesis by (simp add: double_round_def)
next
  case False
  define e where "e = \<lfloor>log 2 \<bar>real_of_int n\<bar>\<rfloor>"
  have pos: "0 < \<bar>real_of_int n\<bar>" using False by simp
  from e_def pos have b: "2 powr (of_int e) \<le> \<bar>real_of_int n\<bar>"
    using floor_log_eq_powr_iff [of "\<bar>real_of_int n\<bar>" 2 e] by simp
  have "1 \<le> \<bar>n\<bar>" using False by linarith
  then have one: "1 \<le> \<bar>real_of_int n\<bar>" by (metis of_int_abs of_int_1_le_iff)
  have e0: "0 \<le> e"
    unfolding e_def using one by simp
  have "\<bar>real_of_int n\<bar> < 2 ^ 53"
    using assms by (metis of_int_abs of_int_less_numeral_power_cancel_iff)
  with b have "2 powr (of_int e) < (2::real) ^ 53" by simp
  also have "(2::real) ^ 53 = 2 powr (real_of_int 53)" by simp
  finally have "real_of_int e < real_of_int 53"
    using powr_less_cancel_iff [of 2 "real_of_int e" "real_of_int 53"] by simp
  then have e52: "e \<le> 52" by simp
  have m: "max e (- 1022) = e" using e0 by simp
  obtain k where k: "52 - e = int k" using e52 by (metis nonneg_int_cases diff_ge_0_iff_ge)
  have u: "(2::real) powi (e - 52) = 1 / 2 ^ k"
  proof -
    have "e - 52 = - int k" using k by simp
    then show ?thesis by (simp add: power_int_minus_divide)
  qed
  have "real_of_int n / (1 / 2 ^ k) = of_int (n * 2 ^ k)" by simp
  then have "round_half_even (real_of_int n / (2 powi (e - 52))) = n * 2 ^ k"
    by (simp only: u round_half_even_of_int)
  then show ?thesis
    using False by (simp add: double_round_def Let_def e_def [symmetric] m u)
qed

lemma double_round_whole:
  assumes "v \<in> \<int>" and "\<bar>v\<bar> < 2 ^ 53"
  shows "double_round v = v"
proof -
  from assms(1) obtain n where n: "v = of_int n" by (auto elim: Ints_cases)
  with assms(2) have "\<bar>n\<bar> < 2 ^ 53" by (metis of_int_abs of_int_less_numeral_power_cancel_iff)
  from double_round_int [OF this] n show ?thesis by simp
qed



subsection \<open>The example sets\<close>

lemma sqrt_28900: "sqrt 28900 = 170"
  by (rule real_sqrt_unique) simp_all


lemma demo_height: "dist3 \<lparr>x = 0, y = 170, z = 0\<rparr> \<lparr>x = 0, y = 0, z = 0\<rparr> = 170"
  by (simp add: dist3_def double_round_zero double_round_whole sqrt_28900)











text \<open>In exact arithmetic the same product is a tie and goes to the even neighbour.\<close>

lemma exact_product_is_tie: "round2 (51 * (135 / 100) * (1 / 2)) = 3442 / 100"
  by (simp add: round2_def round_half_even_def)

lemma scale_factor_eq:
  assumes "29 < length ls"
  shows "scale_factor H ls =
     Inr (case (ls ! 0, ls ! 29) of
            (Some p0, Some p29) \<Rightarrow>
              if 0 < dist3 p0 p29 then double_round (H / dist3 p0 p29) else 1
          | _ \<Rightarrow> 1)"
  using assms by (auto simp: scale_factor_def Let_def split: option.splits)

text \<open>A list that has joint 0 but not joint 29 makes the call raise.\<close>

lemma short_list_raises:
  "ls \<noteq> [] \<Longrightarrow> ls ! 0 \<noteq> None \<Longrightarrow> length ls \<le> 29 \<Longrightarrow>
   calculate_circumference_only H (Some ls) = Inl IndexError"
  by (auto simp: calculate_circumference_only_def scale_factor_def split: option.splits)

lemma calculate_lookup:
  assumes "scale_factor H ls = Inr sf"
  shows "\<exists>m. calculate_circumference_only H (Some ls) = Inr (Some m) \<and>
           (\<forall>k. m k = (case map_of CIRCUMFERENCE_POINTS k of
                          None \<Rightarrow> None
                        | Some cfg \<Rightarrow> entry_value sf ls cfg))"
  using assms
  by (auto simp: calculate_circumference_only_def fold_measure_entry [OF distinct_points]
           split: option.splits)

lemma demo_length: "length demo_landmarks_3d = 33"
  by (simp add: demo_landmarks_3d_def)

lemma demo_nth:
  "demo_landmarks_3d ! 0 = Some \<lparr>x = 0, y = 170, z = 0\<rparr>"
  "demo_landmarks_3d ! 29 = Some \<lparr>x = 0, y = 0, z = 0\<rparr>"
  "demo_landmarks_3d ! 11 = Some \<lparr>x = - 20, y = 140, z = 0\<rparr>"
  "demo_landmarks_3d ! 12 = Some \<lparr>x = 20, y = 140, z = 0\<rparr>"
  "demo_landmarks_3d ! 23 = Some \<lparr>x = - 15, y = 90, z = 0\<rparr>"
  "demo_landmarks_3d ! 24 = Some \<lparr>x = 15, y = 90, z = 0\<rparr>"
  "demo_landmarks_3d ! 13 = None"
  by (simp_all add: demo_landmarks_3d_def)

lemma demo_scale: "scale_factor 170 demo_landmarks_3d = Inr 1"
  by (simp add: scale_factor_eq demo_length demo_nth demo_height double_round_whole)

lemma demo_calculate:
  "calculate_circumference_only 170 (Some demo_landmarks_3d) =
     Inr (Some (fold (measure_entry 1 demo_landmarks_3d) CIRCUMFERENCE_POINTS Map.empty))"
  by (simp add: calculate_circumference_only_def demo_scale)





text \<open>
  Claim C7. When one of the two joints of a calibration entry is absent, the call still
  returns a mapping (no error), and the entry's name is not a key of it.
\<close>

theorem absent_joint_omits_measurement:
  assumes "29 < length ls" and "(name, cfg) \<in> set CIRCUMFERENCE_POINTS"
    and "ls ! fst (indices cfg) = None \<or> ls ! snd (indices cfg) = None"
  shows "\<exists>m. calculate_circumference_only H (Some ls) = Inr (Some m) \<and>
           m name = None \<and> name \<notin> dom m"
proof -
  from scale_factor_eq [OF assms(1)] obtain sf where sf: "scale_factor H ls = Inr sf" by blast
  from calculate_lookup [OF sf] obtain m where
    m: "calculate_circumference_only H (Some ls) = Inr (Some m)" and
    look: "\<And>k. m k = (case map_of CIRCUMFERENCE_POINTS k of
                          None \<Rightarrow> None
                        | Some cfg \<Rightarrow> entry_value sf ls cfg)"
    by blast
  from assms(2) have c: "map_of CIRCUMFERENCE_POINTS name = Some cfg"
    using distinct_points by simp
  have "entry_value sf ls cfg = None"
    using assms(3) by (auto simp: entry_value_def split: option.splits)
  then have "m name = None" by (simp add: look c)
  then show ?thesis using m by (auto simp: dom_def)
qed

theorem absent_joint_omits_measurement_witness:
  "29 < length demo_landmarks_3d \<and>
   (''biceps_left'', \<lparr>indices = (11, 13), ratio = 12 / 10, description = ''Biceps (left arm)''\<rparr>)
     \<in> set CIRCUMFERENCE_POINTS \<and>
   demo_landmarks_3d ! 13 = None \<and>
   (\<exists>m. calculate_circumference_only 170 (Some demo_landmarks_3d) = Inr (Some m) \<and>
        m ''biceps_left'' = None \<and> ''biceps_left'' \<notin> dom m)"
  using absent_joint_omits_measurement [of demo_landmarks_3d "''biceps_left''"
      "\<lparr>indices = (11, 13), ratio = 12 / 10, description = ''Biceps (left arm)''\<rparr>" 170]
  by (simp add: demo_length demo_nth CIRCUMFERENCE_POINTS_def)

text \<open>
  Claim C9. The entries \<open>waist\<close> and \<open>hip\<close> have the same joint pair (23, 24) and the
  same ratio 1.35; in every result \<open>waist\<close> is a key exactly when \<open>hip\<close> is, and the
  two values are equal.
\<close>

theorem waist_equals_hip:
  "map_of CIRCUMFERENCE_POINTS ''waist'' =
     Some \<lparr>indices = (23, 24), ratio = 135 / 100, description = ''Waist (hips)''\<rparr> \<and>
   map_of CIRCUMFERENCE_POINTS ''hip'' =
     Some \<lparr>indices = (23, 24), ratio = 135 / 100, description = ''Hip/Seat''\<rparr> \<and>
   (calculate_circumference_only H (Some ls) = Inr (Some m) \<longrightarrow>
      (''waist'' \<in> dom m \<longleftrightarrow> ''hip'' \<in> dom m) \<and> m ''waist'' = m ''hip'')"
proof -
  have w: "map_of CIRCUMFERENCE_POINTS ''waist'' =
     Some \<lparr>indices = (23, 24), ratio = 135 / 100, description = ''Waist (hips)''\<rparr>"
    by (simp add: CIRCUMFERENCE_POINTS_def)
  have h: "map_of CIRCUMFERENCE_POINTS ''hip'' =
     Some \<lparr>indices = (23, 24), ratio = 135 / 100, description = ''Hip/Seat''\<rparr>"
    by (simp add: CIRCUMFERENCE_POINTS_def)
  have "m ''waist'' = m ''hip''" if "calculate_circumference_only H (Some ls) = Inr (Some m)"
  proof -
    from that obtain sf where sf: "scale_factor H ls = Inr sf"
      by (auto simp: calculate_circumference_only_def split: sum.splits)
    from calculate_lookup [OF sf] that
    have "m k = (case map_of CIRCUMFERENCE_POINTS k of
                          None \<Rightarrow> None
                        | Some cfg \<Rightarrow> entry_value sf ls cfg)" for k
      by auto
    then show ?thesis by (simp add: w h entry_value_def split: option.splits)
  qed
  then have "calculate_circumference_only H (Some ls) = Inr (Some m) \<longrightarrow>
      (''waist'' \<in> dom m \<longleftrightarrow> ''hip'' \<in> dom m) \<and> m ''waist'' = m ''hip''"
    by (simp add: domIff)
  with w h show ?thesis by (intro conjI)
qed

theorem waist_equals_hip_witness:
  "calculate_circumference_only 170 (Some demo_landmarks_3d) =
     Inr (Some (fold (measure_entry 1 demo_landmarks_3d) CIRCUMFERENCE_POINTS Map.empty)) \<and>
   fold (measure_entry 1 demo_landmarks_3d) CIRCUMFERENCE_POINTS Map.empty ''waist'' =
   fold (measure_entry 1 demo_landmarks_3d) CIRCUMFERENCE_POINTS Map.empty ''hip''"
  using waist_equals_hip [of 170 demo_landmarks_3d
      "fold (measure_entry 1 demo_landmarks_3d) CIRCUMFERENCE_POINTS Map.empty"]
  by (simp only: demo_calculate simp_thms)

section \<open>Properties of the MeasurementValidator\<close>

lemma standards_keys:
  "fst ` set CIRCUMFERENCE_STANDARDS =
     {''chest'', ''waist'', ''hip'', ''arm_bicep'', ''thigh_upper'', ''calf''}"
  by (simp add: CIRCUMFERENCE_STANDARDS_def insert_commute)

lemma validate_no_standard:
  assumes "measurement_name \<notin> fst ` set CIRCUMFERENCE_STANDARDS"
  shows "validate_circumference measurement_name value_cm =
     \<lparr>valid = True, message = ''No standard available'', status = None,
      diff_from_target = None\<rparr>"
proof -
  from assms have "map_of CIRCUMFERENCE_STANDARDS measurement_name = None"
    by (simp add: map_of_eq_None_iff)
  then show ?thesis by (simp add: validate_circumference_def)
qed

lemma sided_names:
  "fst ` set CIRCUMFERENCE_POINTS - {''chest'', ''waist'', ''hip''} =
     {''biceps_left'', ''biceps_right'', ''forearm_left'', ''forearm_right'',
      ''thigh_left'', ''thigh_right'', ''calf_left'', ''calf_right''}"
  by (auto simp: CIRCUMFERENCE_POINTS_def)

lemma captured_names: "set MEASUREMENTS_TO_CAPTURE = fst ` set CIRCUMFERENCE_POINTS"
  by (simp add: MEASUREMENTS_TO_CAPTURE_def CIRCUMFERENCE_POINTS_def)

text \<open>
  Claim C10. A name that is not a key of \<open>CIRCUMFERENCE_STANDARDS\<close> is answered with
  \<open>valid = True\<close> and the message \<open>No standard available\<close>, whatever the value. The keys
  of the table are \<open>chest\<close>, \<open>waist\<close>, \<open>hip\<close>, \<open>arm_bicep\<close>, \<open>thigh_upper\<close> and \<open>calf\<close>,
  so each of the eight sided names of \<open>MEASUREMENTS_TO_CAPTURE\<close> is accepted with any
  value.
\<close>

theorem unknown_name_accepted:
  "(measurement_name \<notin> fst ` set CIRCUMFERENCE_STANDARDS \<longrightarrow>
      validate_circumference measurement_name value_cm =
        \<lparr>valid = True, message = ''No standard available'', status = None,
         diff_from_target = None\<rparr>) \<and>
   fst ` set CIRCUMFERENCE_STANDARDS =
     {''chest'', ''waist'', ''hip'', ''arm_bicep'', ''thigh_upper'', ''calf''} \<and>
   set MEASUREMENTS_TO_CAPTURE - {''chest'', ''waist'', ''hip''} =
     {''biceps_left'', ''biceps_right'', ''forearm_left'', ''forearm_right'',
      ''thigh_left'', ''thigh_right'', ''calf_left'', ''calf_right''} \<and>
   (measurement_name \<in> set MEASUREMENTS_TO_CAPTURE - {''chest'', ''waist'', ''hip''} \<longrightarrow>
      validate_circumference measurement_name value_cm =
        \<lparr>valid = True, message = ''No standard available'', status = None,
         diff_from_target = None\<rparr>)"
proof -
  have "measurement_name \<notin> fst ` set CIRCUMFERENCE_STANDARDS"
    if "measurement_name \<in> set MEASUREMENTS_TO_CAPTURE - {''chest'', ''waist'', ''hip''}"
    using that unfolding captured_names sided_names standards_keys by auto
  then show ?thesis
    using validate_no_standard [of measurement_name value_cm] standards_keys sided_names
    unfolding captured_names by blast
qed

theorem unknown_name_accepted_witness:
  "''biceps_left'' \<notin> fst ` set CIRCUMFERENCE_STANDARDS \<and>
   ''biceps_left'' \<in> set MEASUREMENTS_TO_CAPTURE - {''chest'', ''waist'', ''hip''} \<and>
   validate_circumference ''biceps_left'' 100000 =
     \<lparr>valid = True, message = ''No standard available'', status = None,
      diff_from_target = None\<rparr>"
  using unknown_name_accepted [of "''biceps_left''" 100000]
  by (simp add: CIRCUMFERENCE_STANDARDS_def MEASUREMENTS_TO_CAPTURE_def)

section \<open>Properties of the ViewCombiner\<close>

lemma traverse_Inr:
  "(\<And>a. a \<in> set as \<Longrightarrow> f a = Inr (g a)) \<Longrightarrow> traverse f as = Inr (map g as)"
  by (induction as) auto

lemma combine_at_in_range:
  assumes "idx < length l" "idx < length b" "idx < length r"
  shows "combine_at f l b r idx =
     Inr (case (f ! idx, l ! idx, b ! idx, r ! idx) of
            (Some p_front, Some p_left, Some p_back, Some p_right) \<Rightarrow>
              Some (combined p_front p_left p_back p_right)
          | _ \<Rightarrow> None)"
  using assms by (simp add: combine_at_def combined_def split: option.splits)

lemma triangulate_missing_view:
  "front = None \<or> left = None \<or> back = None \<or> right = None \<Longrightarrow>
   triangulate_4view front left back right = Inr None"
  by (auto simp: triangulate_4view_def split: option.splits)

lemma triangulate_equal_lengths:
  assumes "0 < n" "length f = n" "length l = n" "length b = n" "length r = n"
  shows "triangulate_4view (Some f) (Some l) (Some b) (Some r) =
     Inr (Some (map (\<lambda>idx. case (f ! idx, l ! idx, b ! idx, r ! idx) of
            (Some p_front, Some p_left, Some p_back, Some p_right) \<Rightarrow>
              Some (combined p_front p_left p_back p_right)
          | _ \<Rightarrow> None) [0..<n]))"
proof -
  have ne: "f \<noteq> []" "l \<noteq> []" "b \<noteq> []" "r \<noteq> []" using assms by auto
  have "traverse (combine_at f l b r) [0..<length f] =
     Inr (map (\<lambda>idx. case (f ! idx, l ! idx, b ! idx, r ! idx) of
            (Some p_front, Some p_left, Some p_back, Some p_right) \<Rightarrow>
              Some (combined p_front p_left p_back p_right)
          | _ \<Rightarrow> None) [0..<length f])"
    by (rule traverse_Inr) (simp add: combine_at_in_range assms)
  then show ?thesis using ne assms(2) by (simp add: triangulate_4view_def)
qed

text \<open>
  Claim C4. \<open>triangulate_4view\<close> returns \<open>None\<close> when one of the four views is missing.
  For four views of the same positive length the result has that length; a joint that
  all four views have becomes the mean of the four \<open>(x, y, z)\<close> triples, without a
  \<open>visibility\<close> key, and a joint that some view lacks is \<open>None\<close>.
\<close>

theorem combine_views:
  "(front = None \<or> left = None \<or> back = None \<or> right = None \<longrightarrow>
      triangulate_4view front left back right = Inr None) \<and>
   (0 < n \<and> length f = n \<and> length l = n \<and> length b = n \<and> length r = n \<longrightarrow>
      (\<exists>out. triangulate_4view (Some f) (Some l) (Some b) (Some r) = Inr (Some out) \<and>
         length out = n \<and>
         (\<forall>idx<n.
            (\<forall>p_front p_left p_back p_right.
               f ! idx = Some p_front \<and> l ! idx = Some p_left \<and>
               b ! idx = Some p_back \<and> r ! idx = Some p_right \<longrightarrow>
               out ! idx =
                 Some \<lparr>x = (x p_front + x p_left + x p_back + x p_right) / 4,
                       y = (y p_front + y p_left + y p_back + y p_right) / 4,
                       z = (z p_front + z p_left + z p_back + z p_right) / 4\<rparr>) \<and>
            (f ! idx = None \<or> l ! idx = None \<or> b ! idx = None \<or> r ! idx = None \<longrightarrow>
               out ! idx = None))))"
proof (intro conjI impI)
  assume "front = None \<or> left = None \<or> back = None \<or> right = None"
  then show "triangulate_4view front left back right = Inr None"
    by (rule triangulate_missing_view)
next
  assume a: "0 < n \<and> length f = n \<and> length l = n \<and> length b = n \<and> length r = n"
  let ?out = "map (\<lambda>idx. case (f ! idx, l ! idx, b ! idx, r ! idx) of
            (Some p_front, Some p_left, Some p_back, Some p_right) \<Rightarrow>
              Some (combined p_front p_left p_back p_right)
          | _ \<Rightarrow> None) [0..<n]"
  from a have t: "triangulate_4view (Some f) (Some l) (Some b) (Some r) = Inr (Some ?out)"
    by (intro triangulate_equal_lengths) simp_all
  have len: "length ?out = n" by simp
  have pt: "\<forall>idx<n.
            (\<forall>p_front p_left p_back p_right.
               f ! idx = Some p_front \<and> l ! idx = Some p_left \<and>
               b ! idx = Some p_back \<and> r ! idx = Some p_right \<longrightarrow>
               ?out ! idx =
                 Some \<lparr>x = (x p_front + x p_left + x p_back + x p_right) / 4,
                       y = (y p_front + y p_left + y p_back + y p_right) / 4,
                       z = (z p_front + z p_left + z p_back + z p_right) / 4\<rparr>) \<and>
            (f ! idx = None \<or> l ! idx = None \<or> b ! idx = None \<or> r ! idx = None \<longrightarrow>
               ?out ! idx = None)"
    by (auto simp: combined_def split: option.splits)
  from t len pt show "\<exists>out. triangulate_4view (Some f) (Some l) (Some b) (Some r) = Inr (Some out) \<and>
         length out = n \<and>
         (\<forall>idx<n.
            (\<forall>p_front p_left p_back p_right.
               f ! idx = Some p_front \<and> l ! idx = Some p_left \<and>
               b ! idx = Some p_back \<and> r ! idx = Some p_right \<longrightarrow>
               out ! idx =
                 Some \<lparr>x = (x p_front + x p_left + x p_back + x p_right) / 4,
                       y = (y p_front + y p_left + y p_back + y p_right) / 4,
                       z = (z p_front + z p_left + z p_back + z p_right) / 4\<rparr>) \<and>
            (f ! idx = None \<or> l ! idx = None \<or> b ! idx = None \<or> r ! idx = None \<longrightarrow>
               out ! idx = None))"
    by (intro exI [of _ ?out] conjI)
qed

theorem combine_views_witness:
  "triangulate_4view (Some (demo_view 1)) None (Some (demo_view 3)) (Some (demo_view 6)) = Inr None \<and>
   (\<exists>out. triangulate_4view (Some (demo_view 1)) (Some (demo_view 2))
            (Some ((demo_view 3)[1 := None])) (Some (demo_view 6)) = Inr (Some out) \<and>
      length out = 2 \<and> out ! 0 = Some \<lparr>x = 3, y = 6, z = 0\<rparr> \<and> out ! 1 = None)"
proof -
  have a: "triangulate_4view (Some (demo_view 1)) None (Some (demo_view 3)) (Some (demo_view 6)) = Inr None"
    using combine_views [of "Some (demo_view 1)" None "Some (demo_view 3)" "Some (demo_view 6)"]
    by simp
  have lens: "0 < (2::nat) \<and> length (demo_view 1) = 2 \<and> length (demo_view 2) = 2 \<and>
      length ((demo_view 3)[1 := None]) = 2 \<and> length (demo_view 6) = 2"
    by (simp add: demo_view_def)
  from combine_views [THEN conjunct2, rule_format, OF lens]
  obtain out where
    t: "triangulate_4view (Some (demo_view 1)) (Some (demo_view 2))
            (Some ((demo_view 3)[1 := None])) (Some (demo_view 6)) = Inr (Some out)"
    and len: "length out = 2"
    and pt: "\<forall>idx<2.
            (\<forall>p_front p_left p_back p_right.
               demo_view 1 ! idx = Some p_front \<and> demo_view 2 ! idx = Some p_left \<and>
               (demo_view 3)[1 := None] ! idx = Some p_back \<and> demo_view 6 ! idx = Some p_right \<longrightarrow>
               out ! idx =
                 Some \<lparr>x = (x p_front + x p_left + x p_back + x p_right) / 4,
                       y = (y p_front + y p_left + y p_back + y p_right) / 4,
                       z = (z p_front + z p_left + z p_back + z p_right) / 4\<rparr>) \<and>
            ((demo_view 1) ! idx = None \<or> (demo_view 2) ! idx = None \<or>
             (demo_view 3)[1 := None] ! idx = None \<or> (demo_view 6) ! idx = None \<longrightarrow>
               out ! idx = None)"
    by blast
  from pt [rule_format, of 0] have "out ! 0 = Some \<lparr>x = 3, y = 6, z = 0\<rparr>"
    by (simp add: demo_view_def)
  moreover from pt [rule_format, of 1] have "out ! 1 = None"
    by (simp add: demo_view_def)
  ultimately show ?thesis using a t len by blast
qed

section \<open>Properties of the BurstAverager\<close>

lemma present_map:
  "present (map g as) = map (\<lambda>a. the (g a)) (filter (\<lambda>a. g a \<noteq> None) as)"
  by (simp add: present_def filter_map comp_def)

lemma average_at_in_range:
  assumes "\<forall>frame\<in>set landmarks_list. idx < length frame"
  shows "average_at landmarks_list idx =
     Inr (averaged_point (map (\<lambda>frame. the (frame ! idx))
            (filter (\<lambda>frame. frame ! idx \<noteq> None) landmarks_list)))"
  using assms
  by (auto simp: average_at_def averaged_point_def list_ex_iff present_map Let_def)

lemma average_landmarks_equal_lengths:
  assumes "landmarks_list \<noteq> []" and "\<forall>frame\<in>set landmarks_list. length frame = n"
  shows "average_landmarks landmarks_list =
     Inr (Some (map (\<lambda>idx. averaged_point (map (\<lambda>frame. the (frame ! idx))
            (filter (\<lambda>frame. frame ! idx \<noteq> None) landmarks_list))) [0..<n]))"
proof -
  from assms(1) obtain first rest where l: "landmarks_list = first # rest"
    by (cases landmarks_list) auto
  with assms(2) have n: "length first = n" by simp
  have "traverse (average_at landmarks_list) [0..<n] =
     Inr (map (\<lambda>idx. averaged_point (map (\<lambda>frame. the (frame ! idx))
            (filter (\<lambda>frame. frame ! idx \<noteq> None) landmarks_list))) [0..<n])"
    by (rule traverse_Inr) (simp add: average_at_in_range assms(2))
  then show ?thesis
    unfolding average_landmarks_def l [symmetric]
    by (simp add: l n)
qed

text \<open>
  Claim C3. For a non-empty list of frames that all have length \<open>n\<close>, \<open>_average_landmarks\<close>
  returns a list of length \<open>n\<close>. A joint that is \<open>None\<close> in every frame is \<open>None\<close> in
  the result; otherwise its \<open>x\<close>, \<open>y\<close>, \<open>z\<close> and \<open>visibility\<close> are the sums over exactly
  the frames that have the joint, divided by the number of those frames.
\<close>

theorem average_burst:
  assumes "landmarks_list \<noteq> []" and "\<forall>frame\<in>set landmarks_list. length frame = n"
  shows "\<exists>averaged. average_landmarks landmarks_list = Inr (Some averaged) \<and>
     length averaged = n \<and>
     (\<forall>idx<n.
        ((\<forall>frame\<in>set landmarks_list. frame ! idx = None) \<longrightarrow> averaged ! idx = None) \<and>
        (\<forall>pts. pts = map (\<lambda>frame. the (frame ! idx))
                        (filter (\<lambda>frame. frame ! idx \<noteq> None) landmarks_list) \<and>
               pts \<noteq> [] \<longrightarrow>
           averaged ! idx =
             Some \<lparr>x = sum_list (map x pts) / real (length pts),
                   y = sum_list (map y pts) / real (length pts),
                   z = sum_list (map z pts) / real (length pts),
                   visibility = sum_list (map visibility pts) / real (length pts)\<rparr>))"
proof -
  let ?pts = "\<lambda>idx. map (\<lambda>frame. the (frame ! idx))
            (filter (\<lambda>frame. frame ! idx \<noteq> None) landmarks_list)"
  let ?out = "map (\<lambda>idx. averaged_point (?pts idx)) [0..<n]"
  have a: "average_landmarks landmarks_list = Inr (Some ?out)"
    by (rule average_landmarks_equal_lengths [OF assms])
  have len: "length ?out = n" by simp
  have absent: "?out ! idx = None"
    if "idx < n" "\<forall>frame\<in>set landmarks_list. frame ! idx = None" for idx
  proof -
    from that(2) have "filter (\<lambda>frame. frame ! idx \<noteq> None) landmarks_list = []"
      by (simp add: filter_empty_conv)
    then show ?thesis using that(1) by (simp add: averaged_point_def)
  qed
  have pres: "?out ! idx =
             Some \<lparr>x = sum_list (map x pts) / real (length pts),
                   y = sum_list (map y pts) / real (length pts),
                   z = sum_list (map z pts) / real (length pts),
                   visibility = sum_list (map visibility pts) / real (length pts)\<rparr>"
    if "idx < n" "pts = ?pts idx \<and> pts \<noteq> []" for idx pts
    using that by (auto simp: averaged_point_def mean_def)
  show ?thesis
    apply (rule exI [of _ ?out])
    apply (intro conjI allI impI)
       apply (rule a)
      apply (rule len)
     apply (erule (1) absent)
    apply (erule (1) pres)
    done
qed

theorem average_burst_witness:
  "[demo_view 1, (demo_view 5)[1 := None], demo_view 3] \<noteq> [] \<and>
   map length [demo_view 1, (demo_view 5)[1 := None], demo_view 3] = [2, 2, 2] \<and>
   (\<exists>averaged. average_landmarks [demo_view 1, (demo_view 5)[1 := None], demo_view 3] =
        Inr (Some averaged) \<and> length averaged = 2 \<and>
      averaged ! 0 = Some \<lparr>x = 3, y = 6, z = 0, visibility = 9 / 10\<rparr> \<and>
      averaged ! 1 = Some \<lparr>x = 2, y = 0, z = 8, visibility = 8 / 10\<rparr>)"
proof -
  let ?L = "[demo_view 1, (demo_view 5)[1 := None], demo_view 3]"
  have h: "?L \<noteq> []" "\<forall>frame\<in>set ?L. length frame = 2"
    by (simp_all add: demo_view_def)
  from average_burst [OF h] obtain averaged where
    a: "average_landmarks ?L = Inr (Some averaged)" and len: "length averaged = 2"
    and pt: "\<forall>idx<2.
        ((\<forall>frame\<in>set ?L. frame ! idx = None) \<longrightarrow> averaged ! idx = None) \<and>
        (\<forall>pts. pts = map (\<lambda>frame. the (frame ! idx))
                        (filter (\<lambda>frame. frame ! idx \<noteq> None) ?L) \<and>
               pts \<noteq> [] \<longrightarrow>
           averaged ! idx =
             Some \<lparr>x = sum_list (map x pts) / real (length pts),
                   y = sum_list (map y pts) / real (length pts),
                   z = sum_list (map z pts) / real (length pts),
                   visibility = sum_list (map visibility pts) / real (length pts)\<rparr>)"
    by blast
  from pt [rule_format, of 0] have "averaged ! 0 = Some \<lparr>x = 3, y = 6, z = 0, visibility = 9 / 10\<rparr>"
    by (simp add: demo_view_def)
  moreover from pt [rule_format, of 1] have "averaged ! 1 = Some \<lparr>x = 2, y = 0, z = 8, visibility = 8 / 10\<rparr>"
    by (simp add: demo_view_def)
  moreover have "map length ?L = [2, 2, 2]"
    by (simp add: demo_view_def)
  ultimately show ?thesis using a len by blast
qed

section \<open>Properties of the QualityAssessor\<close>

lemma assess_reads_in_range:
  "min_joints_visible \<le> length (filter P ls) \<Longrightarrow> 23 < length ls"
  using length_filter_le [of P ls] unfolding min_joints_visible_def by linarith

lemma extract_nth:
  assumes "extract_landmarks_2d (Some lms) frame_shape = Some ls"
  shows "length ls = length lms"
    and "\<forall>i<length lms. ls ! i \<noteq> None \<longleftrightarrow> 75 / 100 < visibility (lms ! i)"
  using assms
  by (auto simp: extract_landmarks_2d_def Let_def min_visibility_score_def split: if_splits)

lemma extract_filter:
  "map visibility (present (map (\<lambda>lm.
       if visibility lm > min_visibility_score
       then Some \<lparr>x = x lm * w, y = y lm * h, z = z lm, visibility = visibility lm\<rparr>
       else None) lms)) =
   filter (\<lambda>v. 75 / 100 < v) (map visibility lms)"
  by (induction lms) (auto simp: present_def min_visibility_score_def)

lemma extract_present:
  assumes "extract_landmarks_2d (Some lms) frame_shape = Some ls"
  shows "map visibility (present ls) = filter (\<lambda>v. 75 / 100 < v) (map visibility lms)"
  using assms extract_filter [of "real (snd frame_shape)" "real (fst frame_shape)" lms]
  by (auto simp: extract_landmarks_2d_def Let_def)

lemma good_extract:
  "extract_landmarks_2d (Some good_landmarks) (480, 640) = Some good_landmarks_2d"
  by (simp add: extract_landmarks_2d_def good_landmarks_def good_landmarks_2d_def
      min_visibility_score_def)

lemma good_present_count: "length (filter (\<lambda>l. l \<noteq> None) good_landmarks_2d) = 33"
  by (simp add: good_landmarks_2d_def)

lemma good_assess: "assess_pose_quality (Some good_landmarks_2d) = (True, 9 / 10, [])"
  by (simp add: assess_pose_quality_def good_landmarks_2d_def min_joints_visible_def
      present_def mean_def nth_append sum_list_replicate)

lemma good_all_present: "all_joints_present (Some good_landmarks_2d)"
  by (simp add: all_joints_present_def good_landmarks_2d_def list_all_iff)

text \<open>
  Claim C8. With fewer than 28 landmarks present, \<open>assess_pose_quality\<close> returns at
  once: not valid, score 0 and the single issue \<open>Not enough joints\<close>. Otherwise the score
  is the mean of \<open>visibility\<close> over the present landmarks, and the pose is valid exactly
  when there is no issue and the score is above 0.70. A landmark is present in the list
  that \<open>extract_landmarks_2d\<close> builds exactly when its visibility is above 0.75.
\<close>

theorem quality_assessment:
  "(length (filter (\<lambda>l. l \<noteq> None) ls) < 28 \<longrightarrow>
      assess_pose_quality (Some ls) =
        (False, 0,
         [''Not enough joints: '' @ show_nat (length (filter (\<lambda>l. l \<noteq> None) ls)) @ ''/28''])) \<and>
   (28 \<le> length (filter (\<lambda>l. l \<noteq> None) ls) \<longrightarrow>
      (\<exists>is_valid score issues.
         assess_pose_quality (Some ls) = (is_valid, score, issues) \<and>
         score = sum_list (map visibility (present ls)) / real (length (present ls)) \<and>
         (is_valid \<longleftrightarrow> issues = [] \<and> 70 / 100 < score))) \<and>
   (extract_landmarks_2d (Some lms) frame_shape = Some ls \<longrightarrow>
      length ls = length lms \<and>
      (\<forall>i<length lms. ls ! i \<noteq> None \<longleftrightarrow> 75 / 100 < visibility (lms ! i)) \<and>
      map visibility (present ls) = filter (\<lambda>v. 75 / 100 < v) (map visibility lms))"
proof (intro conjI impI)
  assume "length (filter (\<lambda>l. l \<noteq> None) ls) < 28"
  then show "assess_pose_quality (Some ls) =
        (False, 0,
         [''Not enough joints: '' @ show_nat (length (filter (\<lambda>l. l \<noteq> None) ls)) @ ''/28''])"
    by (simp add: assess_pose_quality_def min_joints_visible_def show_nat.simps [of 28]
        show_nat.simps [of 2] digit_char_def)
next
  assume n: "28 \<le> length (filter (\<lambda>l. l \<noteq> None) ls)"
  then have ne: "present ls \<noteq> []" by (auto simp: present_def)
  show "\<exists>is_valid score issues.
         assess_pose_quality (Some ls) = (is_valid, score, issues) \<and>
         score = sum_list (map visibility (present ls)) / real (length (present ls)) \<and>
         (is_valid \<longleftrightarrow> issues = [] \<and> 70 / 100 < score)"
    using n ne
    by (simp add: assess_pose_quality_def min_joints_visible_def Let_def mean_def)
next
  assume e: "extract_landmarks_2d (Some lms) frame_shape = Some ls"
  from extract_nth [OF e]
  show "length ls = length lms" "\<forall>i<length lms. ls ! i \<noteq> None \<longleftrightarrow> 75 / 100 < visibility (lms ! i)"
    by blast+
  from extract_present [OF e]
  show "map visibility (present ls) = filter (\<lambda>v. 75 / 100 < v) (map visibility lms)" .
qed

theorem quality_assessment_witness:
  "length (filter (\<lambda>l. l \<noteq> None) (replicate 33 (None :: landmark option))) < 28 \<and>
   assess_pose_quality (Some (replicate 33 None)) = (False, 0, [''Not enough joints: 0/28'']) \<and>
   28 \<le> length (filter (\<lambda>l. l \<noteq> None) good_landmarks_2d) \<and>
   extract_landmarks_2d (Some good_landmarks) (480, 640) = Some good_landmarks_2d \<and>
   assess_pose_quality (Some good_landmarks_2d) = (True, 9 / 10, [])"
  using quality_assessment [of "replicate 33 None"]
    quality_assessment [of good_landmarks_2d good_landmarks "(480, 640)"]
  by (simp add: good_extract good_assess good_present_count show_nat.simps [of 0] digit_char_def)

section \<open>Properties of the StabilizationGate\<close>

lemma frame_step_eq:
  "frame_step st f =
     (let landmarks_2d = extract_landmarks_2d (pose_landmarks f) (shape f);
          r = capture_frame landmarks_2d
                (update_stability (fst (assess_pose_quality landmarks_2d)) st)
      in (if fst r then Some Burst_complete
          else if key f AND 255 = 113 then Some Key_q
          else if key f AND 255 = 115 then Some Key_s
          else None, snd r))"
  by (simp add: frame_step_def Let_def case_prod_beta)

lemma capture_frame_not_started:
  "\<not> auto_capture_started st \<Longrightarrow> capture_frame landmarks_2d st = (False, st)"
  by (simp add: capture_frame_def)

lemma capture_frame_keeps:
  "pose_stable_count (snd (capture_frame landmarks_2d st)) = pose_stable_count st"
  "auto_capture_started (snd (capture_frame landmarks_2d st)) = auto_capture_started st"
  by (simp_all add: capture_frame_def Let_def)

lemma capture_frame_list:
  "auto_capture_started st \<Longrightarrow>
   valid_landmarks_list (snd (capture_frame landmarks_2d st)) =
     (if all_joints_present landmarks_2d
      then valid_landmarks_list st @ [the landmarks_2d]
      else valid_landmarks_list st)"
  by (simp add: capture_frame_def Let_def)

lemma update_stability_valid:
  "pose_stable_count (update_stability True st) = pose_stable_count st + 1"
  "valid_landmarks_list (update_stability True st) = valid_landmarks_list st"
  "frame_count (update_stability True st) = frame_count st"
  "auto_capture_started (update_stability True st) \<longleftrightarrow>
     auto_capture_started st \<or> pose_stable_threshold \<le> pose_stable_count st + 1"
  by (auto simp: update_stability_def Let_def)

lemma update_stability_invalid:
  "pose_stable_count (update_stability False st) = 0"
  "\<not> auto_capture_started (update_stability False st)"
  "auto_capture_started st \<Longrightarrow> valid_landmarks_list (update_stability False st) = []"
  "auto_capture_started st \<Longrightarrow> frame_count (update_stability False st) = 0"
  "\<not> auto_capture_started st \<Longrightarrow>
     valid_landmarks_list (update_stability False st) = valid_landmarks_list st"
  by (simp_all add: update_stability_def Let_def)


lemma frame_step_invalid:
  assumes "\<not> fst (assess_pose_quality (extract_landmarks_2d (pose_landmarks f) (shape f)))"
  shows "frame_step st f =
     (if key f AND 255 = 113 then Some Key_q
      else if key f AND 255 = 115 then Some Key_s
      else None, update_stability False st)"
  using assms
  by (simp add: frame_step_eq Let_def capture_frame_not_started update_stability_invalid)

text \<open>
  Claim C2. In one iteration of the capture loop a valid frame increments
  \<open>pose_stable_count\<close>; an invalid frame sets it to 0 and leaves no burst in progress,
  and if a burst was in progress it empties \<open>valid_landmarks_list\<close> and zeroes
  \<open>frame_count\<close>.
\<close>

theorem stability_transition:
  "(fst (assess_pose_quality (extract_landmarks_2d (pose_landmarks f) (shape f))) \<longrightarrow>
      pose_stable_count (snd (frame_step st f)) = pose_stable_count st + 1) \<and>
   (\<not> fst (assess_pose_quality (extract_landmarks_2d (pose_landmarks f) (shape f))) \<longrightarrow>
      pose_stable_count (snd (frame_step st f)) = 0 \<and>
      \<not> auto_capture_started (snd (frame_step st f)) \<and>
      (auto_capture_started st \<longrightarrow>
         valid_landmarks_list (snd (frame_step st f)) = [] \<and>
         frame_count (snd (frame_step st f)) = 0) \<and>
      (\<not> auto_capture_started st \<longrightarrow>
         valid_landmarks_list (snd (frame_step st f)) = valid_landmarks_list st \<and>
         frame_count (snd (frame_step st f)) = frame_count st))"
proof (intro conjI impI)
  assume "fst (assess_pose_quality (extract_landmarks_2d (pose_landmarks f) (shape f)))"
  then show "pose_stable_count (snd (frame_step st f)) = pose_stable_count st + 1"
    by (simp add: frame_step_eq Let_def capture_frame_keeps update_stability_valid)
next
  assume inv: "\<not> fst (assess_pose_quality (extract_landmarks_2d (pose_landmarks f) (shape f)))"
  have s: "snd (frame_step st f) = update_stability False st"
    by (simp add: frame_step_invalid [OF inv])
  show "pose_stable_count (snd (frame_step st f)) = 0"
    and "\<not> auto_capture_started (snd (frame_step st f))"
    by (simp_all add: s update_stability_invalid)
  show "valid_landmarks_list (snd (frame_step st f)) = []"
    and "frame_count (snd (frame_step st f)) = 0" if "auto_capture_started st"
    using that by (simp_all add: s update_stability_invalid)
  show "valid_landmarks_list (snd (frame_step st f)) = valid_landmarks_list st"
    and "frame_count (snd (frame_step st f)) = frame_count st" if "\<not> auto_capture_started st"
    using that by (simp_all add: s update_stability_def)
qed

lemma no_pose_invalid:
  "\<not> fst (assess_pose_quality (extract_landmarks_2d (pose_landmarks no_pose_frame) (shape no_pose_frame)))"
  "\<not> fst (assess_pose_quality (extract_landmarks_2d (pose_landmarks quit_frame) (shape quit_frame)))"
  by (simp_all add: no_pose_frame_def quit_frame_def extract_landmarks_2d_def assess_pose_quality_def)

theorem stability_transition_witness:
  "fst (assess_pose_quality (extract_landmarks_2d (pose_landmarks good_frame) (shape good_frame))) \<and>
   pose_stable_count (snd (frame_step initial_state good_frame)) = 1 \<and>
   \<not> fst (assess_pose_quality
           (extract_landmarks_2d (pose_landmarks no_pose_frame) (shape no_pose_frame))) \<and>
   snd (frame_step
         \<lparr>frame_count = 2, valid_landmarks_list = [good_landmarks_2d, good_landmarks_2d],
          pose_stable_count = 17, auto_capture_started = True\<rparr> no_pose_frame) =
     \<lparr>frame_count = 0, valid_landmarks_list = [], pose_stable_count = 0,
      auto_capture_started = False\<rparr>"
proof -
  let ?st = "\<lparr>frame_count = 2, valid_landmarks_list = [good_landmarks_2d, good_landmarks_2d],
          pose_stable_count = 17, auto_capture_started = True\<rparr>"
  have g: "fst (assess_pose_quality (extract_landmarks_2d (pose_landmarks good_frame) (shape good_frame)))"
    by (simp add: good_frame_def good_extract good_assess)
  from stability_transition [of good_frame initial_state] g
  have a: "pose_stable_count (snd (frame_step initial_state good_frame)) = 1"
    by (simp add: initial_state_def)
  from stability_transition [of no_pose_frame ?st] no_pose_invalid(1)
  have "pose_stable_count (snd (frame_step ?st no_pose_frame)) = 0"
    "\<not> auto_capture_started (snd (frame_step ?st no_pose_frame))"
    "valid_landmarks_list (snd (frame_step ?st no_pose_frame)) = []"
    "frame_count (snd (frame_step ?st no_pose_frame)) = 0"
    by simp_all
  then have "snd (frame_step ?st no_pose_frame) =
     \<lparr>frame_count = 0, valid_landmarks_list = [], pose_stable_count = 0,
      auto_capture_started = False\<rparr>"
    by (cases "snd (frame_step ?st no_pose_frame)") simp
  with g a no_pose_invalid(1) show ?thesis by blast
qed

lemma burst_inv_initial: "burst_inv initial_state"
  by (simp add: burst_inv_def initial_state_def frames_per_view_def)

lemma update_stability_inv: "burst_inv st \<Longrightarrow> burst_inv (update_stability v st)"
  by (auto simp: burst_inv_def update_stability_def Let_def frames_per_view_def)

lemma capture_frame_inv:
  assumes "burst_inv st"
  shows "if fst (capture_frame landmarks_2d st)
         then length (valid_landmarks_list (snd (capture_frame landmarks_2d st))) = frames_per_view \<and>
              list_all (\<lambda>fr. all_joints_present (Some fr))
                (valid_landmarks_list (snd (capture_frame landmarks_2d st)))
         else burst_inv (snd (capture_frame landmarks_2d st))"
proof (cases "auto_capture_started st \<and> all_joints_present landmarks_2d")
  case False
  then have "capture_frame landmarks_2d st = (False, st)"
    by (auto simp: capture_frame_def)
  with assms show ?thesis by simp
next
  case True
  then obtain ls where ls: "landmarks_2d = Some ls"
    by (cases landmarks_2d) (auto simp: all_joints_present_def)
  from True assms show ?thesis
    by (auto simp: capture_frame_def Let_def burst_inv_def ls)
qed

lemma frame_step_inv:
  assumes "burst_inv st"
  shows "if fst (frame_step st f) = Some Burst_complete
         then length (valid_landmarks_list (snd (frame_step st f))) = frames_per_view \<and>
              list_all (\<lambda>fr. all_joints_present (Some fr))
                (valid_landmarks_list (snd (frame_step st f)))
         else burst_inv (snd (frame_step st f))"
  using capture_frame_inv [OF update_stability_inv [OF assms],
      of "extract_landmarks_2d (pose_landmarks f) (shape f)"
         "fst (assess_pose_quality (extract_landmarks_2d (pose_landmarks f) (shape f)))"]
  by (simp add: frame_step_eq Let_def split: if_splits)

lemma capture_loop_inv:
  assumes "burst_inv st"
  shows "list_all (\<lambda>fr. all_joints_present (Some fr))
           (valid_landmarks_list (snd (capture_loop st fs))) \<and>
         (if fst (capture_loop st fs) = Burst_complete
          then length (valid_landmarks_list (snd (capture_loop st fs))) = frames_per_view
          else length (valid_landmarks_list (snd (capture_loop st fs))) < frames_per_view)"
  using assms
proof (induction fs arbitrary: st)
  case Nil
  then show ?case by (simp add: burst_inv_def)
next
  case (Cons f fs)
  obtain e st' where step: "frame_step st f = (e, st')" by (cases "frame_step st f")
  show ?case
  proof (cases e)
    case None
    with frame_step_inv [OF Cons.prems, of f] step have "burst_inv st'" by simp
    from Cons.IH [OF this] show ?thesis by (simp add: step None)
  next
    case (Some ex)
    with frame_step_inv [OF Cons.prems, of f] step show ?thesis
      by (cases "ex = Burst_complete") (auto simp: burst_inv_def)
  qed
qed

lemma auto_capture_view_success:
  assumes "auto_capture_view capture_complete frames = Inr (cc, True, averaged)"
  shows "fst (capture_loop initial_state frames) \<noteq> Key_q \<and>
         valid_landmarks_list (snd (capture_loop initial_state frames)) \<noteq> [] \<and>
         average_landmarks (valid_landmarks_list (snd (capture_loop initial_state frames))) =
           Inr averaged \<and> cc = capture_complete"
proof -
  obtain e st where l: "capture_loop initial_state frames = (e, st)"
    by (cases "capture_loop initial_state frames")
  from assms show ?thesis
    by (cases e) (auto simp: auto_capture_view_def l split: if_splits sum.splits)
qed

lemma good_frame_step:
  "frame_step st good_frame =
     (if fst (capture_frame (Some good_landmarks_2d) (update_stability True st))
      then Some Burst_complete else None,
      snd (capture_frame (Some good_landmarks_2d) (update_stability True st)))"
  by (simp add: frame_step_eq good_frame_def good_extract good_assess)

lemma stop_frame_step:
  "frame_step st stop_frame =
     (if fst (capture_frame (Some good_landmarks_2d) (update_stability True st))
      then Some Burst_complete else Some Key_s,
      snd (capture_frame (Some good_landmarks_2d) (update_stability True st)))"
  by (simp add: frame_step_eq stop_frame_def good_extract good_assess)

lemma waiting_good:
  "c + n < 15 \<Longrightarrow>
   capture_loop \<lparr>frame_count = 0, valid_landmarks_list = [], pose_stable_count = c,
                 auto_capture_started = False\<rparr> (replicate n good_frame @ rest) =
   capture_loop \<lparr>frame_count = 0, valid_landmarks_list = [], pose_stable_count = c + n,
                 auto_capture_started = False\<rparr> rest"
proof (induction n arbitrary: c)
  case 0
  then show ?case by simp
next
  case (Suc n)
  from Suc.prems have "Suc c + n < 15" by simp
  from Suc.IH [OF this] Suc.prems show ?case
    by (simp add: good_frame_step update_stability_def capture_frame_def
        pose_stable_threshold_def)
qed

lemma capturing_good:
  "k + n < 30 \<Longrightarrow>
   capture_loop \<lparr>frame_count = k, valid_landmarks_list = replicate k good_landmarks_2d,
                 pose_stable_count = c, auto_capture_started = True\<rparr>
     (replicate n good_frame @ rest) =
   capture_loop \<lparr>frame_count = k + n, valid_landmarks_list = replicate (k + n) good_landmarks_2d,
                 pose_stable_count = c + n, auto_capture_started = True\<rparr> rest"
proof (induction n arbitrary: k c)
  case 0
  then show ?case by simp
next
  case (Suc n)
  from Suc.prems have "Suc k + n < 30" by simp
  from Suc.IH [OF this, of "Suc c"] Suc.prems show ?case
    by (simp add: good_frame_step update_stability_def capture_frame_def Let_def
        frames_per_view_def good_all_present replicate_append_same)
qed

lemma start_good:
  "frame_step \<lparr>frame_count = 0, valid_landmarks_list = [], pose_stable_count = 14,
               auto_capture_started = False\<rparr> good_frame =
     (None, \<lparr>frame_count = 1, valid_landmarks_list = [good_landmarks_2d],
             pose_stable_count = 15, auto_capture_started = True\<rparr>)"
  by (simp add: good_frame_step update_stability_def capture_frame_def Let_def
      frames_per_view_def pose_stable_threshold_def good_all_present)

lemma start_stop:
  "frame_step \<lparr>frame_count = 0, valid_landmarks_list = [], pose_stable_count = 14,
               auto_capture_started = False\<rparr> stop_frame =
     (Some Key_s, \<lparr>frame_count = 1, valid_landmarks_list = [good_landmarks_2d],
             pose_stable_count = 15, auto_capture_started = True\<rparr>)"
  by (simp add: stop_frame_step update_stability_def capture_frame_def Let_def
      frames_per_view_def pose_stable_threshold_def good_all_present)

lemma finish_good:
  "frame_step \<lparr>frame_count = 29, valid_landmarks_list = replicate 29 good_landmarks_2d,
               pose_stable_count = c, auto_capture_started = True\<rparr> good_frame =
     (Some Burst_complete,
      \<lparr>frame_count = 30, valid_landmarks_list = replicate 30 good_landmarks_2d,
       pose_stable_count = c + 1, auto_capture_started = True\<rparr>)"
proof -
  have "replicate 29 good_landmarks_2d @ [good_landmarks_2d] = replicate (Suc 29) good_landmarks_2d"
    by (simp only: replicate_append_same replicate_Suc)
  then have "replicate 29 good_landmarks_2d @ [good_landmarks_2d] = replicate 30 good_landmarks_2d"
    by simp
  then show ?thesis
    by (simp add: good_frame_step update_stability_def capture_frame_def Let_def
        frames_per_view_def good_all_present)
qed

lemma good_run:
  "capture_loop initial_state (replicate 14 good_frame @ good_frame # replicate 28 good_frame @ [good_frame]) =
     (Burst_complete,
      \<lparr>frame_count = 30, valid_landmarks_list = replicate 30 good_landmarks_2d,
       pose_stable_count = 44, auto_capture_started = True\<rparr>)"
proof -
  have "capture_loop initial_state
          (replicate 14 good_frame @ good_frame # replicate 28 good_frame @ [good_frame]) =
        capture_loop \<lparr>frame_count = 0, valid_landmarks_list = [], pose_stable_count = 14,
               auto_capture_started = False\<rparr>
          (good_frame # replicate 28 good_frame @ [good_frame])"
    unfolding initial_state_def using waiting_good [of 0 14] by simp
  also have "\<dots> = capture_loop \<lparr>frame_count = 1, valid_landmarks_list = replicate 1 good_landmarks_2d,
             pose_stable_count = 15, auto_capture_started = True\<rparr>
          (replicate 28 good_frame @ [good_frame])"
    by (simp add: start_good)
  also have "\<dots> = capture_loop \<lparr>frame_count = 29, valid_landmarks_list = replicate 29 good_landmarks_2d,
             pose_stable_count = 43, auto_capture_started = True\<rparr> [good_frame]"
    using capturing_good [of 1 28 15 "[good_frame]"] by simp
  also have "\<dots> = (Burst_complete,
      \<lparr>frame_count = 30, valid_landmarks_list = replicate 30 good_landmarks_2d,
       pose_stable_count = 44, auto_capture_started = True\<rparr>)"
    by (simp add: finish_good)
  finally show ?thesis .
qed

lemma replicate_44: "replicate 44 a = replicate 14 a @ a # replicate 28 a @ [a]"
proof -
  have "replicate 14 a @ a # replicate 28 a @ [a] = replicate (14 + Suc (28 + 1)) a"
    by (simp only: replicate_add replicate_Suc replicate.simps One_nat_def)
  then show ?thesis by simp
qed

lemma stop_run:
  "capture_loop initial_state (replicate 14 good_frame @ [stop_frame]) =
     (Key_s, \<lparr>frame_count = 1, valid_landmarks_list = [good_landmarks_2d],
             pose_stable_count = 15, auto_capture_started = True\<rparr>)"
proof -
  have "capture_loop initial_state (replicate 14 good_frame @ [stop_frame]) =
        capture_loop \<lparr>frame_count = 0, valid_landmarks_list = [], pose_stable_count = 14,
               auto_capture_started = False\<rparr> [stop_frame]"
    unfolding initial_state_def using waiting_good [of 0 14] by simp
  also have "\<dots> = (Key_s, \<lparr>frame_count = 1, valid_landmarks_list = [good_landmarks_2d],
             pose_stable_count = 15, auto_capture_started = True\<rparr>)"
    by (simp add: start_stop)
  finally show ?thesis .
qed

lemma averaged_point_replicate: "0 < n \<Longrightarrow> averaged_point (replicate n p) = Some p"
  by (simp add: averaged_point_def mean_def sum_list_replicate)

lemma average_replicate:
  assumes "0 < n" and "all_joints_present (Some fr)"
  shows "average_landmarks (replicate n fr) = Inr (Some fr)"
proof -
  from assms(2) have pres: "\<And>idx. idx < length fr \<Longrightarrow> fr ! idx \<noteq> None"
    by (auto simp: all_joints_present_def list_all_length)
  have ne: "replicate n fr \<noteq> []" using assms(1) by simp
  have len: "\<forall>frame\<in>set (replicate n fr). length frame = length fr" by simp
  have "map (\<lambda>idx. averaged_point (map (\<lambda>frame. the (frame ! idx))
            (filter (\<lambda>frame. frame ! idx \<noteq> None) (replicate n fr)))) [0..<length fr] = fr"
  proof (rule nth_equalityI)
    show "length (map (\<lambda>idx. averaged_point (map (\<lambda>frame. the (frame ! idx))
            (filter (\<lambda>frame. frame ! idx \<noteq> None) (replicate n fr)))) [0..<length fr]) = length fr"
      by simp
  next
    fix i
    assume "i < length (map (\<lambda>idx. averaged_point (map (\<lambda>frame. the (frame ! idx))
            (filter (\<lambda>frame. frame ! idx \<noteq> None) (replicate n fr)))) [0..<length fr])"
    then have i: "i < length fr" by simp
    from pres [OF i] obtain p where p: "fr ! i = Some p" by auto
    show "map (\<lambda>idx. averaged_point (map (\<lambda>frame. the (frame ! idx))
            (filter (\<lambda>frame. frame ! idx \<noteq> None) (replicate n fr)))) [0..<length fr] ! i = fr ! i"
      using i assms(1) by (simp add: p averaged_point_replicate)
  qed
  with average_landmarks_equal_lengths [OF ne len] show ?thesis by simp
qed





lemma average_single_good: "average_landmarks [good_landmarks_2d] = Inr (Some good_landmarks_2d)"
  using average_replicate [of 1 good_landmarks_2d] by (simp add: good_all_present)

lemma average_thirty_good:
  "average_landmarks (replicate 30 good_landmarks_2d) = Inr (Some good_landmarks_2d)"
  using average_replicate [of 30 good_landmarks_2d] by (simp add: good_all_present)

lemma good_view:
  "auto_capture_view False (replicate 44 good_frame) = Inr (False, True, Some good_landmarks_2d)"
  by (simp add: auto_capture_view_def replicate_44 [of good_frame] good_run average_thirty_good)

lemma good_assess_frame:
  "fst (assess_pose_quality (extract_landmarks_2d (pose_landmarks good_frame) (shape good_frame)))"
  by (simp add: good_frame_def good_extract good_assess)

text \<open>
  When every detection has \<open>n\<close> landmarks, every buffered frame has length \<open>n\<close>, so the
  averaging of the buffer raises nothing.
\<close>

lemma frame_step_buffer_lengths:
  assumes "\<forall>fr\<in>set (valid_landmarks_list st). length fr = n"
    and "\<forall>lms. pose_landmarks f = Some lms \<longrightarrow> length lms = n"
  shows "\<forall>fr\<in>set (valid_landmarks_list (snd (frame_step st f))). length fr = n"
proof -
  let ?lm = "extract_landmarks_2d (pose_landmarks f) (shape f)"
  let ?st1 = "update_stability (fst (assess_pose_quality ?lm)) st"
  have st1: "\<forall>fr\<in>set (valid_landmarks_list ?st1). length fr = n"
    using assms(1) by (auto simp: update_stability_def Let_def)
  have new: "length (the ?lm) = n" if "all_joints_present ?lm"
  proof -
    from that obtain ls where ls: "?lm = Some ls"
      by (cases ?lm) (auto simp: all_joints_present_def)
    then obtain lms where lms: "pose_landmarks f = Some lms"
      by (cases "pose_landmarks f") (auto simp: extract_landmarks_2d_def)
    from ls lms assms(2) extract_nth(1) [of lms "shape f" ls] show ?thesis by simp
  qed
  have "snd (frame_step st f) = snd (capture_frame ?lm ?st1)"
    by (simp add: frame_step_eq Let_def)
  with st1 new show ?thesis
    by (auto simp: capture_frame_def Let_def)
qed

lemma capture_loop_buffer_lengths:
  assumes "\<forall>fr\<in>set (valid_landmarks_list st). length fr = n"
    and "\<forall>f\<in>set frames. \<forall>lms. pose_landmarks f = Some lms \<longrightarrow> length lms = n"
  shows "\<forall>fr\<in>set (valid_landmarks_list (snd (capture_loop st frames))). length fr = n"
  using assms
proof (induction frames arbitrary: st)
  case Nil
  then show ?case by simp
next
  case (Cons f fs)
  from Cons.prems have f: "\<forall>lms. pose_landmarks f = Some lms \<longrightarrow> length lms = n"
    and fs: "\<forall>f\<in>set fs. \<forall>lms. pose_landmarks f = Some lms \<longrightarrow> length lms = n"
    by simp_all
  obtain e st' where step: "frame_step st f = (e, st')" by (cases "frame_step st f")
  from frame_step_buffer_lengths [OF Cons.prems(1) f] step
  have st': "\<forall>fr\<in>set (valid_landmarks_list st'). length fr = n" by simp
  show ?case
  proof (cases e)
    case None
    with Cons.IH [OF st' fs] step show ?thesis by simp
  next
    case (Some ex)
    with st' step show ?thesis by simp
  qed
qed

lemma auto_capture_view_not_cancelled:
  assumes "fst (capture_loop initial_state frames) \<noteq> Key_q"
  shows "auto_capture_view capture_complete frames =
     (if valid_landmarks_list (snd (capture_loop initial_state frames)) \<noteq> []
      then (case average_landmarks (valid_landmarks_list (snd (capture_loop initial_state frames))) of
              Inl e \<Rightarrow> Inl e
            | Inr averaged \<Rightarrow> Inr (capture_complete, True, averaged))
      else Inr (capture_complete, False, None))"
proof -
  obtain e st where l: "capture_loop initial_state frames = (e, st)"
    by (cases "capture_loop initial_state frames")
  from assms show ?thesis
    by (cases e) (simp_all add: auto_capture_view_def l)
qed

lemma auto_capture_view_averages:
  assumes "\<forall>f\<in>set frames. \<forall>lms. pose_landmarks f = Some lms \<longrightarrow> length lms = n"
    and "fst (capture_loop initial_state frames) \<noteq> Key_q"
    and "valid_landmarks_list (snd (capture_loop initial_state frames)) \<noteq> []"
  shows "\<exists>averaged.
     auto_capture_view capture_complete frames = Inr (capture_complete, True, Some averaged) \<and>
     average_landmarks (valid_landmarks_list (snd (capture_loop initial_state frames))) =
       Inr (Some averaged) \<and>
     length averaged = n"
proof -
  let ?final = "valid_landmarks_list (snd (capture_loop initial_state frames))"
  have "\<forall>fr\<in>set (valid_landmarks_list initial_state). length fr = n"
    by (simp add: initial_state_def)
  from capture_loop_buffer_lengths [OF this assms(1)]
  have lens: "\<forall>frame\<in>set ?final. length frame = n" .
  let ?avg = "map (\<lambda>idx. averaged_point (map (\<lambda>frame. the (frame ! idx))
            (filter (\<lambda>frame. frame ! idx \<noteq> None) ?final))) [0..<n]"
  have a: "average_landmarks ?final = Inr (Some ?avg)"
    by (rule average_landmarks_equal_lengths [OF assms(3) lens])
  have v: "auto_capture_view capture_complete frames = Inr (capture_complete, True, Some ?avg)"
    by (simp add: auto_capture_view_not_cancelled [OF assms(2)] assms(3) a)
  have "length ?avg = n" by simp
  with v a show ?thesis by blast
qed

lemma stream_end_run:
  "capture_loop initial_state (replicate 14 good_frame @ [good_frame]) =
     (Stream_end, \<lparr>frame_count = 1, valid_landmarks_list = [good_landmarks_2d],
             pose_stable_count = 15, auto_capture_started = True\<rparr>)"
proof -
  have "capture_loop initial_state (replicate 14 good_frame @ [good_frame]) =
        capture_loop \<lparr>frame_count = 0, valid_landmarks_list = [], pose_stable_count = 14,
               auto_capture_started = False\<rparr> [good_frame]"
    unfolding initial_state_def using waiting_good [of 0 14] by simp
  also have "\<dots> = (Stream_end, \<lparr>frame_count = 1, valid_landmarks_list = [good_landmarks_2d],
             pose_stable_count = 15, auto_capture_started = True\<rparr>)"
    by (simp add: start_good)
  finally show ?thesis .
qed

lemma good_landmarks_length: "length good_landmarks = 33"
  by (simp add: good_landmarks_def)

text \<open>
  Claim C5, amended. When a burst is in progress after the stability update of a valid
  frame, the frame is appended to \<open>valid_landmarks_list\<close> exactly when its landmark list
  is non-empty and has every joint, and is skipped otherwise with the burst kept. The
  buffer never holds more than 30 frames, each with all joints, and the loop is left
  through the frame-count check exactly when the buffer holds 30. A successful view was
  not left by the \<open>q\<close> key and returns the average of a buffer of 1 to 30 frames. When
  every detection has the same number \<open>n\<close> of landmarks, the converse holds too: every
  loop that is not left by the \<open>q\<close> key and leaves a non-empty buffer (30 frames after
  the frame-count check, fewer after the \<open>s\<close> key or the end of the stream) gives a
  successful view, whose result is the average of the buffer and has length \<open>n\<close>.
\<close>

theorem capture_burst:
  "(fst (assess_pose_quality (extract_landmarks_2d (pose_landmarks f) (shape f))) \<and>
    (auto_capture_started st \<or> pose_stable_threshold \<le> pose_stable_count st + 1) \<longrightarrow>
      auto_capture_started (snd (frame_step st f)) \<and>
      valid_landmarks_list (snd (frame_step st f)) =
        (if all_joints_present (extract_landmarks_2d (pose_landmarks f) (shape f))
         then valid_landmarks_list st @ [the (extract_landmarks_2d (pose_landmarks f) (shape f))]
         else valid_landmarks_list st)) \<and>
   (\<forall>fr\<in>set (valid_landmarks_list (snd (capture_loop initial_state frames))).
      fr \<noteq> [] \<and> None \<notin> set fr) \<and>
   length (valid_landmarks_list (snd (capture_loop initial_state frames))) \<le> 30 \<and>
   (fst (capture_loop initial_state frames) = Burst_complete \<longleftrightarrow>
      length (valid_landmarks_list (snd (capture_loop initial_state frames))) = 30) \<and>
   (auto_capture_view capture_complete frames = Inr (cc, True, averaged) \<longrightarrow>
      fst (capture_loop initial_state frames) \<noteq> Key_q \<and>
      1 \<le> length (valid_landmarks_list (snd (capture_loop initial_state frames))) \<and>
      average_landmarks (valid_landmarks_list (snd (capture_loop initial_state frames))) =
        Inr averaged) \<and>
   ((\<forall>f\<in>set frames. \<forall>lms. pose_landmarks f = Some lms \<longrightarrow> length lms = n) \<and>
    fst (capture_loop initial_state frames) \<noteq> Key_q \<and>
    valid_landmarks_list (snd (capture_loop initial_state frames)) \<noteq> [] \<longrightarrow>
      (\<exists>result.
         auto_capture_view capture_complete frames = Inr (capture_complete, True, Some result) \<and>
         average_landmarks (valid_landmarks_list (snd (capture_loop initial_state frames))) =
           Inr (Some result) \<and>
         length result = n))"
proof -
  let ?lm = "extract_landmarks_2d (pose_landmarks f) (shape f)"
  let ?final = "valid_landmarks_list (snd (capture_loop initial_state frames))"
  have step: "auto_capture_started (snd (frame_step st f)) \<and>
      valid_landmarks_list (snd (frame_step st f)) =
        (if all_joints_present ?lm then valid_landmarks_list st @ [the ?lm]
         else valid_landmarks_list st)"
    if "fst (assess_pose_quality ?lm) \<and>
        (auto_capture_started st \<or> pose_stable_threshold \<le> pose_stable_count st + 1)"
  proof -
    from that have v: "fst (assess_pose_quality ?lm)"
      and s: "auto_capture_started (update_stability True st)"
      by (simp_all add: update_stability_valid)
    show ?thesis
      using s by (simp add: frame_step_eq Let_def v capture_frame_keeps capture_frame_list
          update_stability_valid)
  qed
  note inv = capture_loop_inv [OF burst_inv_initial, of frames]
  have frames_ok: "\<forall>fr\<in>set ?final. fr \<noteq> [] \<and> None \<notin> set fr"
    using inv by (auto simp: list_all_iff all_joints_present_def)
  have len: "length ?final \<le> 30"
    using inv by (auto simp: frames_per_view_def split: if_splits)
  have compl: "fst (capture_loop initial_state frames) = Burst_complete \<longleftrightarrow> length ?final = 30"
    using inv by (auto simp: frames_per_view_def split: if_splits)
  have succ: "fst (capture_loop initial_state frames) \<noteq> Key_q \<and> 1 \<le> length ?final \<and>
      average_landmarks ?final = Inr averaged"
    if "auto_capture_view capture_complete frames = Inr (cc, True, averaged)"
    using auto_capture_view_success [OF that] by (cases ?final) auto
  have conv: "\<exists>result.
         auto_capture_view capture_complete frames = Inr (capture_complete, True, Some result) \<and>
         average_landmarks ?final = Inr (Some result) \<and> length result = n"
    if "(\<forall>f\<in>set frames. \<forall>lms. pose_landmarks f = Some lms \<longrightarrow> length lms = n) \<and>
        fst (capture_loop initial_state frames) \<noteq> Key_q \<and> ?final \<noteq> []"
    using that auto_capture_view_averages [of frames n capture_complete] by blast
  show ?thesis
    apply (intro conjI impI)
            apply (erule step [THEN conjunct1])
           apply (erule step [THEN conjunct2])
          apply (rule frames_ok)
         apply (rule len)
        apply (rule compl)
       apply (erule succ [THEN conjunct1])
      apply (erule succ [THEN conjunct2, THEN conjunct1])
     apply (erule succ [THEN conjunct2, THEN conjunct2])
    apply (erule conv)
    done
qed

theorem capture_burst_witness:
  "fst (assess_pose_quality (extract_landmarks_2d (pose_landmarks good_frame) (shape good_frame))) \<and>
   pose_stable_threshold \<le> 14 + 1 \<and>
   valid_landmarks_list (snd (frame_step
       \<lparr>frame_count = 0, valid_landmarks_list = [], pose_stable_count = 14,
        auto_capture_started = False\<rparr> good_frame)) = [good_landmarks_2d] \<and>
   auto_capture_view False (replicate 44 good_frame) = Inr (False, True, Some good_landmarks_2d) \<and>
   fst (capture_loop initial_state (replicate 44 good_frame)) = Burst_complete \<and>
   length (valid_landmarks_list (snd (capture_loop initial_state (replicate 44 good_frame)))) = 30 \<and>
   average_landmarks (valid_landmarks_list (snd (capture_loop initial_state (replicate 44 good_frame)))) =
     Inr (Some good_landmarks_2d) \<and>
   fst (capture_loop initial_state (replicate 14 good_frame @ [good_frame])) = Stream_end \<and>
   valid_landmarks_list (snd (capture_loop initial_state (replicate 14 good_frame @ [good_frame]))) =
     [good_landmarks_2d] \<and>
   auto_capture_view False (replicate 14 good_frame @ [good_frame]) =
     Inr (False, True, Some good_landmarks_2d) \<and>
   length good_landmarks_2d = 33"
proof -
  have t: "pose_stable_threshold \<le> 14 + 1" by (simp add: pose_stable_threshold_def)
  have e: "extract_landmarks_2d (pose_landmarks good_frame) (shape good_frame) = Some good_landmarks_2d"
    by (simp add: good_frame_def good_extract)
  have b: "fst (capture_loop initial_state (replicate 44 good_frame)) = Burst_complete"
    by (simp add: replicate_44 [of good_frame] good_run)
  from capture_burst [of good_frame
      "\<lparr>frame_count = 0, valid_landmarks_list = [], pose_stable_count = 14,
        auto_capture_started = False\<rparr>" "replicate 44 good_frame" False False
      "Some good_landmarks_2d"]
    good_assess_frame t good_view b
  have first: "valid_landmarks_list (snd (frame_step
       \<lparr>frame_count = 0, valid_landmarks_list = [], pose_stable_count = 14,
        auto_capture_started = False\<rparr> good_frame)) = [good_landmarks_2d] \<and>
   length (valid_landmarks_list (snd (capture_loop initial_state (replicate 44 good_frame)))) = 30 \<and>
   average_landmarks (valid_landmarks_list (snd (capture_loop initial_state (replicate 44 good_frame)))) =
     Inr (Some good_landmarks_2d)"
    by (simp add: e good_all_present)
  let ?fs = "replicate 14 good_frame @ [good_frame]"
  have h: "(\<forall>f\<in>set ?fs. \<forall>lms. pose_landmarks f = Some lms \<longrightarrow> length lms = 33) \<and>
      fst (capture_loop initial_state ?fs) \<noteq> Key_q \<and>
      valid_landmarks_list (snd (capture_loop initial_state ?fs)) \<noteq> []"
  proof (intro conjI)
    show "\<forall>f\<in>set ?fs. \<forall>lms. pose_landmarks f = Some lms \<longrightarrow> length lms = 33"
      by (simp add: good_frame_def good_landmarks_length)
    show "fst (capture_loop initial_state ?fs) \<noteq> Key_q"
      by (simp add: stream_end_run)
    show "valid_landmarks_list (snd (capture_loop initial_state ?fs)) \<noteq> []"
      by (simp add: stream_end_run)
  qed
  from capture_burst [of _ _ ?fs False _ _ 33, THEN conjunct2, THEN conjunct2, THEN conjunct2,
      THEN conjunct2, THEN conjunct2, rule_format, OF h]
  obtain result where
    r: "auto_capture_view False ?fs = Inr (False, True, Some result)"
      "average_landmarks (valid_landmarks_list (snd (capture_loop initial_state ?fs))) =
         Inr (Some result)"
      "length result = 33"
    by blast
  from r(2) have "result = good_landmarks_2d"
    by (simp add: stream_end_run average_single_good)
  with r(1,3) have second: "auto_capture_view False ?fs = Inr (False, True, Some good_landmarks_2d)"
    "length good_landmarks_2d = 33"
    by simp_all
  have third: "fst (capture_loop initial_state ?fs) = Stream_end"
    "valid_landmarks_list (snd (capture_loop initial_state ?fs)) = [good_landmarks_2d]"
    by (simp_all add: stream_end_run)
  from good_assess_frame t good_view b first second third show ?thesis
    by (intro conjI) simp_all
qed

text \<open>
  The claim as stated fails: fourteen valid frames, then a fifteenth with the \<open>s\<close> key
  pressed. The burst starts on the fifteenth frame, which is accepted, the key leaves the
  loop, and the view succeeds with the average of one frame.
\<close>

theorem stopped_burst_counterexample:
  "fst (capture_loop initial_state (replicate 14 good_frame @ [stop_frame])) = Key_s \<and>
   length (valid_landmarks_list
     (snd (capture_loop initial_state (replicate 14 good_frame @ [stop_frame])))) = 1 \<and>
   auto_capture_view False (replicate 14 good_frame @ [stop_frame]) =
     Inr (False, True, Some good_landmarks_2d)"
  by (simp add: auto_capture_view_def stop_run average_single_good)






end
